theory Spec2Isabelle
  imports Main
begin

section \<open>Reconciliation of operation lists (reconciliation.ts)\<close>

subsection \<open>Objects, arrays and reference identity\<close>

text \<open>
  JavaScript objects and arrays are compared with \<open>===\<close> by reference. Every object
  and array of the model therefore carries the address it was allocated at; \<open>===\<close> on two
  objects is equality of these addresses. A fresh array or object takes the next unused
  address of the allocator, which the model threads through (\<open>nextRef\<close>).
\<close>

type_synonym addr = nat

text \<open>\<open>number | null | undefined\<close>, as the type of \<open>blockHeight\<close> and \<open>latestDate\<close>.\<close>

datatype 'a nullable = Undefined | Null | Val 'a

text \<open>
  An Operation (types-live). The engine reads \<open>id\<close>, \<open>hash\<close> and \<open>blockHeight\<close>; the
  amount and everything else (gathered in \<open>extra\<close>, empty when the operation has none) are
  only seen by the external \<open>sameOp\<close>, by the merger and by the conversion from raw.
\<close>

record Operation =
  op_ref :: addr
  op_id :: string
  op_hash :: string
  op_accountId :: string
  op_blockHeight :: "int nullable"
  op_amount :: int
  op_extra :: string

record OpArray =
  arr_ref :: addr
  elems :: "Operation list"

subsection \<open>Array primitives\<close>

text \<open>\<open>ops.find((o) => o.id === op.id)\<close>\<close>

definition findExistingOp :: "Operation list \<Rightarrow> Operation \<Rightarrow> Operation option" where
  "findExistingOp ops op = find (\<lambda>x. op_id x = op_id op) ops"

text \<open>\<open>Array.prototype.indexOf\<close> on objects: the first index holding the same reference, -1 if none.\<close>

fun indexOf :: "Operation list \<Rightarrow> Operation \<Rightarrow> int" where
  "indexOf [] x = -1"
| "indexOf (y # ys) x =
     (if op_ref y = op_ref x then 0
      else (let r = indexOf ys x in if r < 0 then -1 else r + 1))"

text \<open>\<open>Array.prototype.slice(start)\<close>: a negative start counts from the end.\<close>

definition slice :: "'a list \<Rightarrow> int \<Rightarrow> 'a list" where
  "slice xs start =
     (if start < 0 then drop (nat (max (int (length xs) + start) 0)) xs
      else drop (nat start) xs)"

subsection \<open>The step builder\<close>

text \<open>
  The four fields of \<open>StepBuilderState\<close>, then what the model adds: the allocator, the
  number of calls made to \<open>sameOp\<close>, and the calls made to \<open>consoleWarnExpectToEqual\<close>.
\<close>

record StepBuilderState =
  operations :: OpArray
  existingOps :: OpArray
  immutableOpCmpDoneOnce :: bool
  finished :: bool
  nextRef :: addr
  sameOpCalls :: nat
  warnings :: "(Operation \<times> Operation) list"

text \<open>\<open>state.operations.push(op)\<close>: the array keeps its reference.\<close>

definition push_op :: "StepBuilderState \<Rightarrow> Operation \<Rightarrow> StepBuilderState" where
  "push_op state op =
     state\<lparr>operations := (operations state)\<lparr>elems := elems (operations state) @ [op]\<rparr>\<rparr>"

text \<open>Lines 527-553: \<open>existingOp\<close> was found and is kept as the match.\<close>

definition keepMatched :: "StepBuilderState \<Rightarrow> Operation \<Rightarrow> nat \<Rightarrow> StepBuilderState" where
  "keepMatched state existingOp i =
     (let j = indexOf (elems (existingOps state)) existingOp;
          rest = slice (elems (existingOps state)) j;
          state = state\<lparr>nextRef := Suc (nextRef state)\<rparr>
      in if length rest > i + 1 then push_op state existingOp
         else (if length (elems (operations state)) = 0 \<and> j = 0
               then state\<lparr>operations := existingOps state, finished := True\<rparr>
               else state\<lparr>operations :=
                            \<lparr>arr_ref = nextRef state,
                             elems = elems (operations state) @ rest\<rparr>,
                          nextRef := Suc (nextRef state),
                          finished := True\<rparr>))"

text \<open>
  \<open>stepBuilder(state, newOp, i)\<close>. \<open>sameOp\<close> is imported from bridge/jsHelpers, a module
  outside the files verified here, and is a parameter. The model counts the calls to
  \<open>sameOp\<close> in \<open>sameOpCalls\<close> and records the arguments of each
  \<open>consoleWarnExpectToEqual\<close> in \<open>warnings\<close>.
\<close>

definition stepBuilder ::
  "(Operation \<Rightarrow> Operation \<Rightarrow> bool) \<Rightarrow> StepBuilderState \<Rightarrow> Operation \<Rightarrow> nat \<Rightarrow> StepBuilderState" where
  "stepBuilder sameOp state newOp i =
     (case findExistingOp (elems (existingOps state)) newOp of
        None \<Rightarrow> push_op state newOp
      | Some existingOp \<Rightarrow>
          if \<not> immutableOpCmpDoneOnce state then
            if op_blockHeight existingOp \<noteq> op_blockHeight newOp then push_op state newOp
            else
              (let state = state\<lparr>immutableOpCmpDoneOnce := True,
                                  sameOpCalls := Suc (sameOpCalls state)\<rparr>
               in if \<not> sameOp existingOp newOp then
                    push_op
                      (state\<lparr>warnings := warnings state @ [(newOp, existingOp)],
                             existingOps := \<lparr>arr_ref = nextRef state, elems = []\<rparr>,
                             nextRef := Suc (nextRef state)\<rparr>)
                      newOp
                  else keepMatched state existingOp i)
          else keepMatched state existingOp i)"

subsection \<open>The two builders\<close>

text \<open>
  The state literal of both builders; \<open>operations: []\<close> is a fresh array.
  \<open>existingOperations || []\<close> is \<open>existingOperations\<close>: both builders have read its
  \<open>length\<close> before, so it is an array.
\<close>

definition initialState :: "addr \<Rightarrow> OpArray \<Rightarrow> StepBuilderState" where
  "initialState h existingOperations =
     \<lparr>operations = \<lparr>arr_ref = h, elems = []\<rparr>,
      existingOps = existingOperations,
      immutableOpCmpDoneOnce = False,
      finished = False,
      nextRef = Suc h,
      sameOpCalls = 0,
      warnings = []\<rparr>"

text \<open>
  The loop \<open>for (let i = coreOperations.length - 1; i >= 0; i--)\<close> of
  \<open>minimalOperationsBuilderSync\<close>; the last argument is \<open>i + 1\<close>. An adapter result of
  \<open>null\<close> or \<open>undefined\<close> is \<open>None\<close>.
\<close>

fun loopSync ::
  "(Operation \<Rightarrow> Operation \<Rightarrow> bool) \<Rightarrow> ('co \<Rightarrow> Operation option) \<Rightarrow> 'co list \<Rightarrow>
   StepBuilderState \<Rightarrow> nat \<Rightarrow> StepBuilderState" where
  "loopSync sameOp buildOp coreOperations state 0 = state"
| "loopSync sameOp buildOp coreOperations state (Suc i) =
     (case buildOp (coreOperations ! i) of
        None \<Rightarrow> loopSync sameOp buildOp coreOperations state i
      | Some newOp \<Rightarrow>
          (let state = stepBuilder sameOp state newOp i
           in if finished state then state
              else loopSync sameOp buildOp coreOperations state i))"

definition runSync ::
  "(Operation \<Rightarrow> Operation \<Rightarrow> bool) \<Rightarrow> addr \<Rightarrow> OpArray \<Rightarrow> 'co list \<Rightarrow>
   ('co \<Rightarrow> Operation option) \<Rightarrow> StepBuilderState" where
  "runSync sameOp h existingOperations coreOperations buildOp =
     loopSync sameOp buildOp coreOperations (initialState h existingOperations)
       (length coreOperations)"

text \<open>\<open>minimalOperationsBuilderSync\<close>; \<open>h\<close> is the allocator's next unused address.\<close>

definition minimalOperationsBuilderSync ::
  "(Operation \<Rightarrow> Operation \<Rightarrow> bool) \<Rightarrow> addr \<Rightarrow> OpArray \<Rightarrow> 'co list \<Rightarrow>
   ('co \<Rightarrow> Operation option) \<Rightarrow> OpArray" where
  "minimalOperationsBuilderSync sameOp h existingOperations coreOperations buildOp =
     (if length (elems existingOperations) = 0 \<and> length coreOperations = 0
      then existingOperations
      else operations (runSync sameOp h existingOperations coreOperations buildOp))"

text \<open>
  The loop of \<open>minimalOperationsBuilder\<close>, with the accumulator \<open>operationWithSameHash\<close>.
  Each \<open>await buildOp\<close> completes before the next index is read, so the walk is the
  sequential one.
\<close>

fun loopMerge ::
  "(Operation \<Rightarrow> Operation \<Rightarrow> bool) \<Rightarrow> ('co \<Rightarrow> Operation option) \<Rightarrow>
   (Operation list \<Rightarrow> Operation) option \<Rightarrow> 'co list \<Rightarrow>
   StepBuilderState \<times> Operation list \<Rightarrow> nat \<Rightarrow> StepBuilderState \<times> Operation list" where
  "loopMerge sameOp buildOp mergeSameHashOps coreOperations (state, operationWithSameHash) 0 =
     (state, operationWithSameHash)"
| "loopMerge sameOp buildOp mergeSameHashOps coreOperations (state, operationWithSameHash) (Suc i) =
     (case buildOp (coreOperations ! i) of
        None \<Rightarrow>
          loopMerge sameOp buildOp mergeSameHashOps coreOperations
            (state, operationWithSameHash) i
      | Some op \<Rightarrow>
          (case mergeSameHashOps of
             Some merger \<Rightarrow>
               if length operationWithSameHash = 0
                  \<or> op_hash (operationWithSameHash ! 0) = op_hash op
               then loopMerge sameOp buildOp mergeSameHashOps coreOperations
                      (state, operationWithSameHash @ [op]) i
               else
                 (let newOp = merger operationWithSameHash;
                      state = stepBuilder sameOp state newOp i
                  in if finished state then (state, [op])
                     else loopMerge sameOp buildOp mergeSameHashOps coreOperations
                            (state, [op]) i)
           | None \<Rightarrow>
               (let state = stepBuilder sameOp state op i
                in if finished state then (state, operationWithSameHash)
                   else loopMerge sameOp buildOp mergeSameHashOps coreOperations
                          (state, operationWithSameHash) i)))"

text \<open>The flush after the loop (lines 90-92), skipped when the loop returned early.\<close>

definition flushMerge ::
  "(Operation \<Rightarrow> Operation \<Rightarrow> bool) \<Rightarrow> (Operation list \<Rightarrow> Operation) option \<Rightarrow>
   StepBuilderState \<times> Operation list \<Rightarrow> StepBuilderState" where
  "flushMerge sameOp mergeSameHashOps sa =
     (case sa of (state, operationWithSameHash) \<Rightarrow>
        if finished state then state
        else (case mergeSameHashOps of
                Some merger \<Rightarrow>
                  if length operationWithSameHash \<noteq> 0
                  then stepBuilder sameOp state (merger operationWithSameHash) 0
                  else state
              | None \<Rightarrow> state))"

definition runMerge ::
  "(Operation \<Rightarrow> Operation \<Rightarrow> bool) \<Rightarrow> addr \<Rightarrow> OpArray \<Rightarrow> 'co list \<Rightarrow>
   ('co \<Rightarrow> Operation option) \<Rightarrow> (Operation list \<Rightarrow> Operation) option \<Rightarrow> StepBuilderState" where
  "runMerge sameOp h existingOperations coreOperations buildOp mergeSameHashOps =
     flushMerge sameOp mergeSameHashOps
       (loopMerge sameOp buildOp mergeSameHashOps coreOperations
          (initialState h existingOperations, []) (length coreOperations))"

definition minimalOperationsBuilder ::
  "(Operation \<Rightarrow> Operation \<Rightarrow> bool) \<Rightarrow> addr \<Rightarrow> OpArray \<Rightarrow> 'co list \<Rightarrow>
   ('co \<Rightarrow> Operation option) \<Rightarrow> (Operation list \<Rightarrow> Operation) option \<Rightarrow> OpArray" where
  "minimalOperationsBuilder sameOp h existingOperations coreOperations buildOp mergeSameHashOps =
     (if length (elems existingOperations) = 0 \<and> length coreOperations = 0
      then existingOperations
      else operations
             (runMerge sameOp h existingOperations coreOperations buildOp mergeSameHashOps))"


subsection \<open>The calls a run makes to the step builder\<close>

text \<open>
  \<open>walkSync ... k0 s0 k state\<close>: the loop of \<open>minimalOperationsBuilderSync\<close>, entered
  with \<open>i + 1 = k0\<close> in state \<open>s0\<close>, comes to the head of the iteration \<open>i + 1 = k\<close> in
  \<open>state\<close> without having returned.
\<close>

inductive walkSync ::
  "(Operation \<Rightarrow> Operation \<Rightarrow> bool) \<Rightarrow> ('co \<Rightarrow> Operation option) \<Rightarrow> 'co list \<Rightarrow>
   nat \<Rightarrow> StepBuilderState \<Rightarrow> nat \<Rightarrow> StepBuilderState \<Rightarrow> bool"
  for sameOp buildOp coreOperations k0 s0 where
  walkSync_start: "walkSync sameOp buildOp coreOperations k0 s0 k0 s0"
| walkSync_skip:
    "walkSync sameOp buildOp coreOperations k0 s0 (Suc i) state \<Longrightarrow>
     buildOp (coreOperations ! i) = None \<Longrightarrow>
     walkSync sameOp buildOp coreOperations k0 s0 i state"
| walkSync_step:
    "walkSync sameOp buildOp coreOperations k0 s0 (Suc i) state \<Longrightarrow>
     buildOp (coreOperations ! i) = Some newOp \<Longrightarrow>
     \<not> finished (stepBuilder sameOp state newOp i) \<Longrightarrow>
     walkSync sameOp buildOp coreOperations k0 s0 i (stepBuilder sameOp state newOp i)"

text \<open>The same for the loop of \<open>minimalOperationsBuilder\<close>, with its accumulator.\<close>

inductive walkMerge ::
  "(Operation \<Rightarrow> Operation \<Rightarrow> bool) \<Rightarrow> ('co \<Rightarrow> Operation option) \<Rightarrow>
   (Operation list \<Rightarrow> Operation) option \<Rightarrow> 'co list \<Rightarrow>
   nat \<Rightarrow> StepBuilderState \<times> Operation list \<Rightarrow> nat \<Rightarrow> StepBuilderState \<times> Operation list \<Rightarrow> bool"
  for sameOp buildOp mergeSameHashOps coreOperations k0 sa0 where
  walkMerge_start: "walkMerge sameOp buildOp mergeSameHashOps coreOperations k0 sa0 k0 sa0"
| walkMerge_skip:
    "walkMerge sameOp buildOp mergeSameHashOps coreOperations k0 sa0 (Suc i) (state, acc) \<Longrightarrow>
     buildOp (coreOperations ! i) = None \<Longrightarrow>
     walkMerge sameOp buildOp mergeSameHashOps coreOperations k0 sa0 i (state, acc)"
| walkMerge_accumulate:
    "walkMerge sameOp buildOp mergeSameHashOps coreOperations k0 sa0 (Suc i) (state, acc) \<Longrightarrow>
     buildOp (coreOperations ! i) = Some op \<Longrightarrow>
     mergeSameHashOps = Some merger \<Longrightarrow>
     length acc = 0 \<or> op_hash (acc ! 0) = op_hash op \<Longrightarrow>
     walkMerge sameOp buildOp mergeSameHashOps coreOperations k0 sa0 i (state, acc @ [op])"
| walkMerge_release:
    "walkMerge sameOp buildOp mergeSameHashOps coreOperations k0 sa0 (Suc i) (state, acc) \<Longrightarrow>
     buildOp (coreOperations ! i) = Some op \<Longrightarrow>
     mergeSameHashOps = Some merger \<Longrightarrow>
     \<not> (length acc = 0 \<or> op_hash (acc ! 0) = op_hash op) \<Longrightarrow>
     \<not> finished (stepBuilder sameOp state (merger acc) i) \<Longrightarrow>
     walkMerge sameOp buildOp mergeSameHashOps coreOperations k0 sa0 i
       (stepBuilder sameOp state (merger acc) i, [op])"
| walkMerge_step:
    "walkMerge sameOp buildOp mergeSameHashOps coreOperations k0 sa0 (Suc i) (state, acc) \<Longrightarrow>
     buildOp (coreOperations ! i) = Some op \<Longrightarrow>
     mergeSameHashOps = None \<Longrightarrow>
     \<not> finished (stepBuilder sameOp state op i) \<Longrightarrow>
     walkMerge sameOp buildOp mergeSameHashOps coreOperations k0 sa0 i
       (stepBuilder sameOp state op i, acc)"

text \<open>
  What holds at every loop head: the walk has not finished, the window is the caller's array
  or has been emptied, and the allocator has moved past \<open>state.operations\<close>.
\<close>

definition walkInv :: "addr \<Rightarrow> OpArray \<Rightarrow> StepBuilderState \<Rightarrow> bool" where
  "walkInv h existingOperations state \<longleftrightarrow>
     \<not> finished state
     \<and> (existingOps state = existingOperations \<or> elems (existingOps state) = [])
     \<and> h < nextRef state"

text \<open>
  \<open>callsSync ... state newOp i\<close>: the run of \<open>minimalOperationsBuilderSync\<close> on these
  arguments calls \<open>stepBuilder(state, newOp, i)\<close>. \<open>callsMerge\<close> is the same for
  \<open>minimalOperationsBuilder\<close>, whose calls are the one of the plain iteration, the one that
  releases an accumulated group, and the flush after the loop.
\<close>

definition callsSync ::
  "(Operation \<Rightarrow> Operation \<Rightarrow> bool) \<Rightarrow> addr \<Rightarrow> OpArray \<Rightarrow> 'co list \<Rightarrow>
   ('co \<Rightarrow> Operation option) \<Rightarrow> StepBuilderState \<Rightarrow> Operation \<Rightarrow> nat \<Rightarrow> bool" where
  "callsSync sameOp h existingOperations coreOperations buildOp state newOp i \<longleftrightarrow>
     walkSync sameOp buildOp coreOperations (length coreOperations)
       (initialState h existingOperations) (Suc i) state
     \<and> buildOp (coreOperations ! i) = Some newOp"

inductive callsMerge ::
  "(Operation \<Rightarrow> Operation \<Rightarrow> bool) \<Rightarrow> addr \<Rightarrow> OpArray \<Rightarrow> 'co list \<Rightarrow>
   ('co \<Rightarrow> Operation option) \<Rightarrow> (Operation list \<Rightarrow> Operation) option \<Rightarrow>
   StepBuilderState \<Rightarrow> Operation \<Rightarrow> nat \<Rightarrow> bool"
  for sameOp h existingOperations coreOperations buildOp mergeSameHashOps where
  callsMerge_plain:
    "walkMerge sameOp buildOp mergeSameHashOps coreOperations (length coreOperations)
       (initialState h existingOperations, []) (Suc i) (state, acc) \<Longrightarrow>
     buildOp (coreOperations ! i) = Some op \<Longrightarrow>
     mergeSameHashOps = None \<Longrightarrow>
     callsMerge sameOp h existingOperations coreOperations buildOp mergeSameHashOps state op i"
| callsMerge_release:
    "walkMerge sameOp buildOp mergeSameHashOps coreOperations (length coreOperations)
       (initialState h existingOperations, []) (Suc i) (state, acc) \<Longrightarrow>
     buildOp (coreOperations ! i) = Some op \<Longrightarrow>
     mergeSameHashOps = Some merger \<Longrightarrow>
     \<not> (length acc = 0 \<or> op_hash (acc ! 0) = op_hash op) \<Longrightarrow>
     callsMerge sameOp h existingOperations coreOperations buildOp mergeSameHashOps
       state (merger acc) i"
| callsMerge_flush:
    "walkMerge sameOp buildOp mergeSameHashOps coreOperations (length coreOperations)
       (initialState h existingOperations, []) 0 (state, acc) \<Longrightarrow>
     mergeSameHashOps = Some merger \<Longrightarrow>
     length acc \<noteq> 0 \<Longrightarrow>
     callsMerge sameOp h existingOperations coreOperations buildOp mergeSameHashOps
       state (merger acc) 0"

subsection \<open>Snapshots that list the cached operations again\<close>

text \<open>
  For a cached list \<open>es\<close> and the operations \<open>ns\<close> built for the same records, newest first:
  the number of leading positions at which the block height has changed.
\<close>

definition heightChanges :: "Operation list \<Rightarrow> Operation list \<Rightarrow> nat" where
  "heightChanges es ns =
     length (takeWhile (\<lambda>(e, n). op_blockHeight e \<noteq> op_blockHeight n) (zip es ns))"


subsection \<open>Groups of operations with one hash\<close>

text \<open>
  The operations the adapter builds, in the order the loop reads \<open>coreOperations\<close> (from
  index \<open>k - 1\<close> down to 0), each with the index of its record; skipped records are left out.
\<close>

fun indexedOps :: "('co \<Rightarrow> Operation option) \<Rightarrow> 'co list \<Rightarrow> nat \<Rightarrow> (Operation \<times> nat) list" where
  "indexedOps buildOp coreOperations 0 = []"
| "indexedOps buildOp coreOperations (Suc i) =
     (case buildOp (coreOperations ! i) of
        None \<Rightarrow> indexedOps buildOp coreOperations i
      | Some op \<Rightarrow> (op, i) # indexedOps buildOp coreOperations i)"

text \<open>The maximal runs of adjacent elements with one key, in order.\<close>

function runsBy :: "('a \<Rightarrow> 'k) \<Rightarrow> 'a list \<Rightarrow> 'a list list" where
  "runsBy key [] = []"
| "runsBy key (x # xs) =
     (x # takeWhile (\<lambda>y. key y = key x) xs) # runsBy key (dropWhile (\<lambda>y. key y = key x) xs)"
  by pat_completeness auto
termination
  by (relation "measure (\<lambda>(key, xs). length xs)")
     (auto simp: length_dropWhile_le le_imp_less_Suc)

text \<open>
  What the groups ask of the step builder: each group is merged into one operation; a
  group is released when the first record of the next group is read, at that record's
  index, and the last group is flushed with index 0.
\<close>

fun releases ::
  "(Operation list \<Rightarrow> Operation) \<Rightarrow> (Operation \<times> nat) list list \<Rightarrow> (Operation \<times> nat) list" where
  "releases merger [] = []"
| "releases merger [g] = [(merger (map fst g), 0)]"
| "releases merger (g # g' # gs) =
     (merger (map fst g), snd (hd g')) # releases merger (g' # gs)"

text \<open>Calls to the step builder, one after the other, until one of them finishes the walk.\<close>

fun stepsOver ::
  "(Operation \<Rightarrow> Operation \<Rightarrow> bool) \<Rightarrow> StepBuilderState \<Rightarrow> (Operation \<times> nat) list \<Rightarrow> StepBuilderState" where
  "stepsOver sameOp state [] = state"
| "stepsOver sameOp state ((newOp, i) # calls) =
     (let state = stepBuilder sameOp state newOp i
      in if finished state then state else stepsOver sameOp state calls)"

section \<open>Balance history cache (reconciliation.ts, lines 126-141)\<close>

text \<open>
  A JavaScript number as far as \<open>===\<close> sees it: \<open>NaN\<close> differs from every number, itself
  included; any two other numbers are compared by value.
\<close>

datatype number = Num int | NaN

definition strictNeNumber :: "number \<Rightarrow> number \<Rightarrow> bool" where
  "strictNeNumber a b \<longleftrightarrow> a = NaN \<or> b = NaN \<or> a \<noteq> b"

text \<open>\<open>!==\<close> on \<open>number | null | undefined\<close>.\<close>

fun strictNe :: "number nullable \<Rightarrow> number nullable \<Rightarrow> bool" where
  "strictNe (Val a) (Val b) = strictNeNumber a b"
| "strictNe a b = (a \<noteq> b)"

text \<open>\<open>BalanceHistoryData\<close> and \<open>BalanceHistoryCache\<close> (types-live).\<close>

record BalanceHistoryData =
  latestDate :: "number nullable"
  balances :: "number list"

record BalanceHistoryCache =
  HOUR :: BalanceHistoryData
  DAY :: BalanceHistoryData
  WEEK :: BalanceHistoryData

text \<open>
  \<open>shouldRefreshBalanceHistoryCache(balanceHistoryCache, account)\<close>; the second argument
  is \<open>account.balanceHistoryCache\<close>, the only part of the account the function reads.
\<close>

definition shouldRefreshBalanceHistoryCache :: "BalanceHistoryCache \<Rightarrow> BalanceHistoryCache \<Rightarrow> bool" where
  "shouldRefreshBalanceHistoryCache balanceHistoryCache accountBalanceHistoryCache =
     (let oldH = HOUR accountBalanceHistoryCache;
          newH = HOUR balanceHistoryCache
      in if strictNe (latestDate oldH) (latestDate newH) then True
         else if length (balances oldH) \<noteq> length (balances newH) then True
         else (let len = length (balances newH)
               in if len = 0 then False
                  else if strictNeNumber (balances oldH ! (len - 1)) (balances newH ! (len - 1))
                       then True
                       else False))"

section \<open>Accounts and their raw form (types-live)\<close>

text \<open>
  Values of the libraries the code relies on. A \<open>BigNumber\<close> is an integer amount or NaN
  and a \<open>Date\<close> a time in milliseconds or the invalid date; the code only parses and
  prints them, through the functions of \<open>env\<close> below. What is thrown is a value: an
  \<open>Error\<close> made by the code with its message, or one of the errors the language raises.
\<close>

datatype BigNumber = BigNumber int | BigNumberNaN

datatype JsDate = JsDate int | InvalidDate

datatype error = Error string | ReferenceError string | TypeError string | RangeError string

record CurrencyUnit =
  unit_code :: string
  unit_magnitude :: int

record CryptoCurrency =
  cur_id :: string
  cur_family :: string
  cur_units :: "CurrencyUnit list"

record TokenCurrency =
  tok_id :: string
  tok_ticker :: string

datatype FeesCurrency = CryptoFees CryptoCurrency | TokenFees TokenCurrency

record FreshAddress =
  fa_derivationPath :: string
  fa_address :: string

record SwapOperationRaw =
  swr_fromAmount :: string
  swr_toAmount :: string
  swr_rest :: string

record SwapOperation =
  sw_fromAmount :: BigNumber
  sw_toAmount :: BigNumber
  sw_rest :: string

record Approval =
  ap_sender :: string
  ap_value :: string

record ProtoNFTRaw =
  nftr_id :: string
  nftr_tokenId :: string
  nftr_amount :: string
  nftr_contract :: string
  nftr_standard :: string
  nftr_currencyId :: string
  nftr_metadata :: string

record ProtoNFT =
  nft_id :: string
  nft_tokenId :: string
  nft_amount :: BigNumber
  nft_contract :: string
  nft_standard :: string
  nft_currencyId :: string
  nft_metadata :: string

record OperationRaw =
  opr_id :: string
  opr_hash :: string
  opr_blockHeight :: "int nullable"
  opr_amount :: string
  opr_extra :: string

text \<open>
  The family payloads. Their types are declared in the family modules, outside the files
  verified here: the unspent
  outputs of bitcoin are opaque values in a raw and a live shape, the resources of the
  other families are opaque values.
\<close>

datatype BitcoinOutputRaw = BitcoinOutputRaw string

datatype BitcoinOutput = BitcoinOutput string

record BitcoinResourcesRaw =
  btcr_utxos :: "BitcoinOutputRaw list"
  btcr_walletAccount :: "string option"

record BitcoinResources =
  btc_utxos :: "BitcoinOutput list"
  btc_walletAccount :: "string option"

datatype FamilyResourcesRaw = FamilyResourcesRaw string

datatype FamilyResources = FamilyResources string

text \<open>
  \<open>SubAccountRaw\<close> is \<open>TokenAccountRaw | ChildAccountRaw\<close>, told apart by \<open>type\<close>. One
  record holds the fields of both; a field the variant does not carry is not read.
\<close>

record SubAccountRaw =
  sar_type :: string
  sar_id :: string
  sar_parentId :: string
  sar_starred :: "bool option"
  sar_tokenId :: string
  sar_name :: string
  sar_currencyId :: string
  sar_address :: string
  sar_operationsCount :: "int option"
  sar_operations :: "OperationRaw list"
  sar_pendingOperations :: "OperationRaw list"
  sar_creationDate :: "string option"
  sar_balance :: string
  sar_spendableBalance :: "string option"
  sar_compoundBalance :: "string option"
  sar_balanceHistoryCache :: "BalanceHistoryCache option"
  sar_swapHistory :: "SwapOperationRaw list option"
  sar_approvals :: "Approval list option"

text \<open>\<open>SubAccount\<close> is \<open>TokenAccount | ChildAccount\<close>; \<open>sa_ref\<close> is the object's address.\<close>

record SubAccount =
  sa_ref :: addr
  sa_type :: string
  sa_id :: string
  sa_parentId :: string
  sa_name :: "string option"
  sa_starred :: bool
  sa_token :: "TokenCurrency option"
  sa_currency :: "CryptoCurrency option"
  sa_address :: "string option"
  sa_balance :: BigNumber
  sa_spendableBalance :: "BigNumber option"
  sa_compoundBalance :: "BigNumber option"
  sa_creationDate :: JsDate
  sa_operationsCount :: int
  sa_operations :: OpArray
  sa_pendingOperations :: OpArray
  sa_swapHistory :: "SwapOperation list"
  sa_approvals :: "Approval list option"
  sa_balanceHistoryCache :: BalanceHistoryCache

record SubArray =
  subs_ref :: addr
  subs_elems :: "SubAccount list"

record AccountRaw =
  accr_id :: string
  accr_seedIdentifier :: string
  accr_derivationMode :: string
  accr_index :: int
  accr_xpub :: "string option"
  accr_starred :: "bool option"
  accr_used :: "bool option"
  accr_freshAddress :: string
  accr_freshAddressPath :: string
  accr_freshAddresses :: "FreshAddress list option"
  accr_name :: string
  accr_blockHeight :: int
  accr_endpointConfig :: "string option"
  accr_currencyId :: string
  accr_feesCurrencyId :: "string option"
  accr_unitMagnitude :: int
  accr_operations :: "OperationRaw list"
  accr_operationsCount :: "int option"
  accr_pendingOperations :: "OperationRaw list"
  accr_lastSyncDate :: string
  accr_creationDate :: "string option"
  accr_balance :: string
  accr_balanceHistoryCache :: "BalanceHistoryCache option"
  accr_spendableBalance :: "string option"
  accr_subAccounts :: "SubAccountRaw list option"
  accr_swapHistory :: "SwapOperationRaw list option"
  accr_syncHash :: "string option"
  accr_nfts :: "ProtoNFTRaw list option"
  accr_bitcoinResources :: "BitcoinResourcesRaw option"
  accr_polkadotResources :: "FamilyResourcesRaw option"
  accr_zilliqaResources :: "FamilyResourcesRaw option"
  accr_cryptoOrgResources :: "FamilyResourcesRaw option"
  accr_familyData :: string

text \<open>
  \<open>Account\<close>; \<open>acc_ref\<close> is the object's address. \<open>acc_familyData\<close> stands for whatever the
  bridges of the other families keep on the account.
\<close>

record Account =
  acc_ref :: addr
  acc_type :: string
  acc_id :: string
  acc_starred :: bool
  acc_used :: bool
  acc_seedIdentifier :: string
  acc_derivationMode :: string
  acc_index :: int
  acc_freshAddress :: string
  acc_freshAddressPath :: string
  acc_freshAddresses :: "FreshAddress list"
  acc_name :: string
  acc_blockHeight :: int
  acc_creationDate :: JsDate
  acc_balance :: BigNumber
  acc_spendableBalance :: BigNumber
  acc_operations :: OpArray
  acc_operationsCount :: int
  acc_pendingOperations :: OpArray
  acc_unit :: "CurrencyUnit option"
  acc_currency :: CryptoCurrency
  acc_feesCurrency :: "FeesCurrency option"
  acc_lastSyncDate :: JsDate
  acc_swapHistory :: "SwapOperation list"
  acc_syncHash :: "string option"
  acc_balanceHistoryCache :: BalanceHistoryCache
  acc_nfts :: "ProtoNFT list option"
  acc_xpub :: "string option"
  acc_endpointConfig :: "string option"
  acc_subAccounts :: "SubArray option"
  acc_bitcoinResources :: "BitcoinResources option"
  acc_polkadotResources :: "FamilyResources option"
  acc_zilliqaResources :: "FamilyResources option"
  acc_cryptoOrgResources :: "FamilyResources option"
  acc_familyData :: string

section \<open>Conversion from raw (account serialization)\<close>

subsection \<open>What the code takes from elsewhere\<close>

text \<open>
  The libraries, and the modules of the repository outside the files verified here, as
  parameters:
  \<^item> \<open>sameOp\<close> (bridge/jsHelpers);
  \<^item> \<open>new BigNumber(s)\<close>, \<open>toString()\<close>, \<open>new Date(s)\<close>, the clock \<open>Date.now()\<close>, and
    \<open>toISOString()\<close>, which may throw (a \<open>RangeError\<close> on an invalid date);
  \<^item> the currency tables: \<open>getCryptoCurrencyById\<close> and \<open>getTokenById\<close> may throw,
    \<open>findCryptoCurrencyById\<close> and \<open>findTokenById\<close> may find nothing;
  \<^item> \<open>emptyHistoryCache\<close> and \<open>generateHistoryFromOperations\<close> (coin-framework), the
    latter once for sub-accounts and once for accounts; \<open>isAccountEmpty\<close>;
  \<^item> \<open>fromOperationRaw\<close> of coin-framework (here \<open>commonFromOperationRaw\<close>) and, for the
    family inferred from an account id, \<open>accountByFamily[family].fromOperationExtraRaw\<close>;
  \<^item> of the bridge of an account (\<open>getAccountBridge\<close>), \<open>assignFromAccountRaw\<close> and
    \<open>applyReconciliation\<close>; both write to the account they are given, which the model
    returns; the second also returns its verdict;
  \<^item> the conversions of the family resources, and lodash's \<open>isEqual\<close> between the raw and
    the live unspent outputs of bitcoin.
\<close>

record env =
  x_sameOp :: "Operation \<Rightarrow> Operation \<Rightarrow> bool"
  x_newBigNumber :: "string \<Rightarrow> BigNumber"
  x_bnToString :: "BigNumber \<Rightarrow> string"
  x_newDate :: "string \<Rightarrow> JsDate"
  x_toISOString :: "JsDate \<Rightarrow> error + string"
  x_now :: JsDate
  x_getCryptoCurrencyById :: "string \<Rightarrow> error + CryptoCurrency"
  x_findCryptoCurrencyById :: "string \<Rightarrow> CryptoCurrency option"
  x_getTokenById :: "string \<Rightarrow> error + TokenCurrency"
  x_findTokenById :: "string \<Rightarrow> TokenCurrency option"
  x_emptyHistoryCache :: BalanceHistoryCache
  x_generateHistorySub :: "SubAccount \<Rightarrow> BalanceHistoryCache"
  x_generateHistoryAccount :: "Account \<Rightarrow> BalanceHistoryCache"
  x_isAccountEmpty :: "Account \<Rightarrow> bool"
  x_commonFromOperationRaw :: "OperationRaw \<Rightarrow> string \<Rightarrow> SubAccount list option \<Rightarrow> Operation"
  x_fromOperationExtraRaw :: "string \<Rightarrow> (string \<Rightarrow> string) option"
  x_assignFromAccountRaw :: "Account \<Rightarrow> (AccountRaw \<Rightarrow> Account \<Rightarrow> Account) option"
  x_applyReconciliation :: "Account \<Rightarrow> (Account \<Rightarrow> AccountRaw \<Rightarrow> Account \<Rightarrow> bool \<times> Account) option"
  x_fromBitcoinResourcesRaw :: "BitcoinResourcesRaw \<Rightarrow> BitcoinResources"
  x_isEqualUtxos :: "BitcoinOutputRaw list \<Rightarrow> BitcoinOutput list \<Rightarrow> bool"
  x_fromPolkadotResourcesRaw :: "FamilyResourcesRaw \<Rightarrow> FamilyResources"
  x_toPolkadotResourcesRaw :: "FamilyResources \<Rightarrow> FamilyResourcesRaw"
  x_fromZilliqaResourcesRaw :: "FamilyResourcesRaw \<Rightarrow> FamilyResources"
  x_toZilliqaResourcesRaw :: "FamilyResources \<Rightarrow> FamilyResourcesRaw"
  x_fromCryptoOrgResourcesRaw :: "FamilyResourcesRaw \<Rightarrow> FamilyResources"
  x_toCryptoOrgResourcesRaw :: "FamilyResources \<Rightarrow> FamilyResourcesRaw"

subsection \<open>JavaScript operators\<close>

text \<open>\<open>a || b\<close> on an optional string and a string: \<open>undefined\<close> and \<open>""\<close> are falsy.\<close>

definition orElse :: "string option \<Rightarrow> string \<Rightarrow> string" where
  "orElse a b = (case a of None \<Rightarrow> b | Some s \<Rightarrow> if s = [] then b else s)"

text \<open>Truthiness of an optional string.\<close>

definition truthy :: "string option \<Rightarrow> bool" where
  "truthy a = (case a of None \<Rightarrow> False | Some s \<Rightarrow> s \<noteq> [])"

text \<open>
  \<open>count || (operations && operations.length) || 0\<close>: an absent or zero count gives the
  length of the list.
\<close>

definition countOrLength :: "int option \<Rightarrow> 'a list \<Rightarrow> int" where
  "countOrLength n xs =
     (case n of None \<Rightarrow> int (length xs) | Some c \<Rightarrow> if c = 0 then int (length xs) else c)"

text \<open>\<open>new Date(creationDate || Date.now())\<close>\<close>

definition dateOrNow :: "env \<Rightarrow> string option \<Rightarrow> JsDate" where
  "dateOrNow env d = (if truthy d then x_newDate env (the d) else x_now env)"

subsection \<open>Operations\<close>

text \<open>
  \<open>fromOperationRaw(operation, accountId, subAccounts)\<close>, lines 79-142. After the
  conversion of \<open>extra\<close> the function returns an object literal (lines 104-111) whose
  shorthand properties \<open>contract\<close>, \<open>operator\<close>, \<open>standard\<close> and \<open>tokenId\<close> read
  variables that no declaration in scope binds: evaluating the literal throws a
  \<open>ReferenceError\<close> at the first of them, on every call. The statements after the
  \<open>return\<close> are never reached.
\<close>

definition fromOperationRaw ::
  "env \<Rightarrow> OperationRaw \<Rightarrow> string \<Rightarrow> SubAccount list option \<Rightarrow> error + Operation" where
  "fromOperationRaw env operation accountId subAccounts =
     (let res = x_commonFromOperationRaw env operation accountId subAccounts;
          e = op_extra res;
          e = (if e \<noteq> [] then
                 (case x_fromOperationExtraRaw env (op_accountId res) of
                    Some f \<Rightarrow> f e
                  | None \<Rightarrow> e)
               else e)
      in Inl (ReferenceError ''contract is not defined''))"

text \<open>
  \<open>Array.prototype.map\<close> with a callback that may throw, over the elements from the first
  on: the first error ends the call. The object built for the element at index \<open>i\<close> is at
  \<open>h + i\<close>.
\<close>

fun mapOperations ::
  "(OperationRaw \<Rightarrow> error + Operation) \<Rightarrow> addr \<Rightarrow> OperationRaw list \<Rightarrow> error + Operation list" where
  "mapOperations f h [] = Inr []"
| "mapOperations f h (raw # raws) =
     (case f raw of
        Inl e \<Rightarrow> Inl e
      | Inr op \<Rightarrow>
          (case mapOperations f (Suc h) raws of
             Inl e \<Rightarrow> Inl e
           | Inr ops \<Rightarrow> Inr (op\<lparr>op_ref := h\<rparr> # ops)))"

text \<open>
  \<open>(operations || []).map(convertOperation)\<close> at allocator state \<open>h\<close>: the new array comes
  after the operations built.
\<close>

definition convertOperations ::
  "env \<Rightarrow> addr \<Rightarrow> OperationRaw list \<Rightarrow> string \<Rightarrow> SubAccount list option \<Rightarrow>
   error + OpArray \<times> addr" where
  "convertOperations env h raws accountId subAccounts =
     (case mapOperations (\<lambda>raw. fromOperationRaw env raw accountId subAccounts) h raws of
        Inl e \<Rightarrow> Inl e
      | Inr ops \<Rightarrow> Inr (\<lparr>arr_ref = h + length raws, elems = ops\<rparr>, Suc (h + length raws)))"

definition fromSwapOperationRaw :: "env \<Rightarrow> SwapOperationRaw \<Rightarrow> SwapOperation" where
  "fromSwapOperationRaw env raw =
     \<lparr>sw_fromAmount = x_newBigNumber env (swr_fromAmount raw),
      sw_toAmount = x_newBigNumber env (swr_toAmount raw),
      sw_rest = swr_rest raw\<rparr>"

definition fromNFTRaw :: "env \<Rightarrow> ProtoNFTRaw \<Rightarrow> ProtoNFT" where
  "fromNFTRaw env raw =
     \<lparr>nft_id = nftr_id raw,
      nft_tokenId = nftr_tokenId raw,
      nft_amount = x_newBigNumber env (nftr_amount raw),
      nft_contract = nftr_contract raw,
      nft_standard = nftr_standard raw,
      nft_currencyId = nftr_currencyId raw,
      nft_metadata = nftr_metadata raw\<rparr>"

subsection \<open>Sub-accounts\<close>

text \<open>
  The converters return the object built and the allocator state after it, or the error
  thrown.
\<close>

definition fromTokenAccountRaw :: "env \<Rightarrow> addr \<Rightarrow> SubAccountRaw \<Rightarrow> error + SubAccount \<times> addr" where
  "fromTokenAccountRaw env h raw =
     (case x_getTokenById env (sar_tokenId raw) of
        Inl e \<Rightarrow> Inl e
      | Inr token \<Rightarrow>
          (case convertOperations env h (sar_operations raw) (sar_id raw) None of
             Inl e \<Rightarrow> Inl e
           | Inr (ops, h) \<Rightarrow>
          (case convertOperations env h (sar_pendingOperations raw) (sar_id raw) None of
             Inl e \<Rightarrow> Inl e
           | Inr (pending, h) \<Rightarrow>
          (let res = \<lparr>sa_ref = h,
                      sa_type = ''TokenAccount'',
                      sa_id = sar_id raw,
                      sa_parentId = sar_parentId raw,
                      sa_name = None,
                      sa_starred = (case sar_starred raw of None \<Rightarrow> False | Some b \<Rightarrow> b),
                      sa_token = Some token,
                      sa_currency = None,
                      sa_address = None,
                      sa_balance = x_newBigNumber env (sar_balance raw),
                      sa_spendableBalance =
                        Some (if truthy (sar_spendableBalance raw)
                              then x_newBigNumber env (the (sar_spendableBalance raw))
                              else x_newBigNumber env (sar_balance raw)),
                      sa_compoundBalance = None,
                      sa_creationDate = dateOrNow env (sar_creationDate raw),
                      sa_operationsCount =
                        countOrLength (sar_operationsCount raw) (sar_operations raw),
                      sa_operations = ops,
                      sa_pendingOperations = pending,
                      sa_swapHistory =
                        map (fromSwapOperationRaw env)
                          (case sar_swapHistory raw of None \<Rightarrow> [] | Some sh \<Rightarrow> sh),
                      sa_approvals = sar_approvals raw,
                      sa_balanceHistoryCache =
                        (case sar_balanceHistoryCache raw of
                           None \<Rightarrow> x_emptyHistoryCache env
                         | Some c \<Rightarrow> c)\<rparr>
           in Inr (res\<lparr>sa_balanceHistoryCache := x_generateHistorySub env res\<rparr>, Suc h)))))"

definition fromChildAccountRaw :: "env \<Rightarrow> addr \<Rightarrow> SubAccountRaw \<Rightarrow> error + SubAccount \<times> addr" where
  "fromChildAccountRaw env h raw =
     (case x_getCryptoCurrencyById env (sar_currencyId raw) of
        Inl e \<Rightarrow> Inl e
      | Inr currency \<Rightarrow>
          (case convertOperations env h (sar_operations raw) (sar_id raw) None of
             Inl e \<Rightarrow> Inl e
           | Inr (ops, h) \<Rightarrow>
          (case convertOperations env h (sar_pendingOperations raw) (sar_id raw) None of
             Inl e \<Rightarrow> Inl e
           | Inr (pending, h) \<Rightarrow>
          (let res = \<lparr>sa_ref = h,
                      sa_type = ''ChildAccount'',
                      sa_id = sar_id raw,
                      sa_parentId = sar_parentId raw,
                      sa_name = Some (sar_name raw),
                      sa_starred = (case sar_starred raw of None \<Rightarrow> False | Some b \<Rightarrow> b),
                      sa_token = None,
                      sa_currency = Some currency,
                      sa_address = Some (sar_address raw),
                      sa_balance = x_newBigNumber env (sar_balance raw),
                      sa_spendableBalance = None,
                      sa_compoundBalance = None,
                      sa_creationDate = dateOrNow env (sar_creationDate raw),
                      sa_operationsCount =
                        countOrLength (sar_operationsCount raw) (sar_operations raw),
                      sa_operations = ops,
                      sa_pendingOperations = pending,
                      sa_swapHistory =
                        map (fromSwapOperationRaw env)
                          (case sar_swapHistory raw of None \<Rightarrow> [] | Some sh \<Rightarrow> sh),
                      sa_approvals = None,
                      sa_balanceHistoryCache =
                        (case sar_balanceHistoryCache raw of
                           None \<Rightarrow> x_emptyHistoryCache env
                         | Some c \<Rightarrow> c)\<rparr>
           in Inr (res\<lparr>sa_balanceHistoryCache := x_generateHistorySub env res\<rparr>, Suc h)))))"

text \<open>\<open>fromSubAccountRaw\<close>, lines 451-462.\<close>

definition fromSubAccountRaw :: "env \<Rightarrow> addr \<Rightarrow> SubAccountRaw \<Rightarrow> error + SubAccount \<times> addr" where
  "fromSubAccountRaw env h raw =
     (if sar_type raw = ''ChildAccountRaw'' then fromChildAccountRaw env h raw
      else if sar_type raw = ''TokenAccountRaw'' then fromTokenAccountRaw env h raw
      else Inl (Error (''invalid raw.type='' @ sar_type raw)))"

subsection \<open>Accounts\<close>

text \<open>
  The \<open>map\<close> and \<open>filter(Boolean)\<close> over \<open>subAccountsRaw\<close> in \<open>fromAccountRaw\<close>: a token
  account whose token is not found is left out; any other record goes through its
  converter, whose error ends the conversion.
\<close>

fun convertSubAccounts ::
  "env \<Rightarrow> addr \<Rightarrow> SubAccountRaw list \<Rightarrow> error + SubAccount list \<times> addr" where
  "convertSubAccounts env h [] = Inr ([], h)"
| "convertSubAccounts env h (ta # tas) =
     (if sar_type ta = ''TokenAccountRaw'' then
        (case x_findTokenById env (sar_tokenId ta) of
           None \<Rightarrow> convertSubAccounts env h tas
         | Some t \<Rightarrow>
             (case fromTokenAccountRaw env h ta of
                Inl e \<Rightarrow> Inl e
              | Inr (sub, h) \<Rightarrow>
                  (case convertSubAccounts env h tas of
                     Inl e \<Rightarrow> Inl e
                   | Inr (rest, h) \<Rightarrow> Inr (sub # rest, h))))
      else
        (case fromSubAccountRaw env h ta of
           Inl e \<Rightarrow> Inl e
         | Inr (sub, h) \<Rightarrow>
             (case convertSubAccounts env h tas of
                Inl e \<Rightarrow> Inl e
              | Inr (rest, h) \<Rightarrow> Inr (sub # rest, h))))"

text \<open>
  \<open>(feesCurrencyId && (findCryptoCurrencyById(feesCurrencyId) ||
  findTokenById(feesCurrencyId))) || undefined\<close>
\<close>

definition findFeesCurrency :: "env \<Rightarrow> string option \<Rightarrow> FeesCurrency option" where
  "findFeesCurrency env feesCurrencyId =
     (if truthy feesCurrencyId then
        (case x_findCryptoCurrencyById env (the feesCurrencyId) of
           Some c \<Rightarrow> Some (CryptoFees c)
         | None \<Rightarrow> map_option TokenFees (x_findTokenById env (the feesCurrencyId)))
      else None)"

text \<open>\<open>currency.units.find((u) => u.magnitude === unitMagnitude) || currency.units[0]\<close>\<close>

definition findUnit :: "CryptoCurrency \<Rightarrow> int \<Rightarrow> CurrencyUnit option" where
  "findUnit currency unitMagnitude =
     (case find (\<lambda>u. unit_magnitude u = unitMagnitude) (cur_units currency) of
        Some u \<Rightarrow> Some u
      | None \<Rightarrow> (case cur_units currency of [] \<Rightarrow> None | u # us \<Rightarrow> Some u))"

text \<open>\<open>fromAccountRaw\<close>, lines 497-626.\<close>

definition fromAccountRaw :: "env \<Rightarrow> addr \<Rightarrow> AccountRaw \<Rightarrow> error + Account \<times> addr" where
  "fromAccountRaw env h rawAccount =
     (case (case accr_subAccounts rawAccount of
              None \<Rightarrow> Inr (None, h)
            | Some subAccountsRaw \<Rightarrow>
                (case convertSubAccounts env h subAccountsRaw of
                   Inl e \<Rightarrow> Inl e
                 | Inr (ss, h) \<Rightarrow> Inr (Some \<lparr>subs_ref = h, subs_elems = ss\<rparr>, Suc h))) of
        Inl e \<Rightarrow> Inl e
      | Inr (subAccounts, h) \<Rightarrow>
          (case x_getCryptoCurrencyById env (accr_currencyId rawAccount) of
             Inl e \<Rightarrow> Inl e
           | Inr currency \<Rightarrow>
               (let feesCurrency = findFeesCurrency env (accr_feesCurrencyId rawAccount);
                    unit = findUnit currency (accr_unitMagnitude rawAccount);
                    subList = map_option subs_elems subAccounts
                in
               (case convertOperations env h (accr_operations rawAccount)
                       (accr_id rawAccount) subList of
                  Inl e \<Rightarrow> Inl e
                | Inr (ops, h) \<Rightarrow>
               (case convertOperations env h (accr_pendingOperations rawAccount)
                       (accr_id rawAccount) subList of
                  Inl e \<Rightarrow> Inl e
                | Inr (pending, h) \<Rightarrow>
               (let res = \<lparr>acc_ref = h,
                           acc_type = ''Account'',
                           acc_id = accr_id rawAccount,
                           acc_starred =
                             (case accr_starred rawAccount of None \<Rightarrow> False | Some b \<Rightarrow> b),
                           acc_used = False,
                           acc_seedIdentifier = accr_seedIdentifier rawAccount,
                           acc_derivationMode = accr_derivationMode rawAccount,
                           acc_index = accr_index rawAccount,
                           acc_freshAddress = accr_freshAddress rawAccount,
                           acc_freshAddressPath = accr_freshAddressPath rawAccount,
                           acc_freshAddresses =
                             (case accr_freshAddresses rawAccount of
                                Some fas \<Rightarrow> fas
                              | None \<Rightarrow>
                                  [\<lparr>fa_derivationPath = accr_freshAddressPath rawAccount,
                                    fa_address = accr_freshAddress rawAccount\<rparr>]),
                           acc_name = accr_name rawAccount,
                           acc_blockHeight = accr_blockHeight rawAccount,
                           acc_creationDate = dateOrNow env (accr_creationDate rawAccount),
                           acc_balance = x_newBigNumber env (accr_balance rawAccount),
                           acc_spendableBalance =
                             x_newBigNumber env
                               (orElse (accr_spendableBalance rawAccount) (accr_balance rawAccount)),
                           acc_operations = ops,
                           acc_operationsCount =
                             countOrLength (accr_operationsCount rawAccount)
                               (accr_operations rawAccount),
                           acc_pendingOperations = pending,
                           acc_unit = unit,
                           acc_currency = currency,
                           acc_feesCurrency = feesCurrency,
                           acc_lastSyncDate =
                             (if accr_lastSyncDate rawAccount = [] then JsDate 0
                              else x_newDate env (accr_lastSyncDate rawAccount)),
                           acc_swapHistory = [],
                           acc_syncHash = accr_syncHash rawAccount,
                           acc_balanceHistoryCache =
                             (case accr_balanceHistoryCache rawAccount of
                                None \<Rightarrow> x_emptyHistoryCache env
                              | Some c \<Rightarrow> c),
                           acc_nfts = map_option (map (fromNFTRaw env)) (accr_nfts rawAccount),
                           acc_xpub = None,
                           acc_endpointConfig = None,
                           acc_subAccounts = None,
                           acc_bitcoinResources = None,
                           acc_polkadotResources = None,
                           acc_zilliqaResources = None,
                           acc_cryptoOrgResources = None,
                           acc_familyData = []\<rparr>;
                    res = res\<lparr>acc_balanceHistoryCache := x_generateHistoryAccount env res\<rparr>;
                    res = (case accr_used rawAccount of
                             None \<Rightarrow> res\<lparr>acc_used := \<not> x_isAccountEmpty env res\<rparr>
                           | Some used \<Rightarrow> res\<lparr>acc_used := used\<rparr>);
                    res = (if truthy (accr_xpub rawAccount)
                           then res\<lparr>acc_xpub := accr_xpub rawAccount\<rparr> else res);
                    res = (if truthy (accr_endpointConfig rawAccount)
                           then res\<lparr>acc_endpointConfig := accr_endpointConfig rawAccount\<rparr>
                           else res);
                    res = (case subAccounts of
                             Some sa \<Rightarrow> res\<lparr>acc_subAccounts := Some sa\<rparr>
                           | None \<Rightarrow> res);
                    res = (case x_assignFromAccountRaw env res of
                             Some assignFromAccountRaw \<Rightarrow>
                               (assignFromAccountRaw rawAccount res)\<lparr>acc_ref := acc_ref res\<rparr>
                           | None \<Rightarrow> res);
                    res = (case accr_swapHistory rawAccount of
                             Some swapHistory \<Rightarrow>
                               res\<lparr>acc_swapHistory := map (fromSwapOperationRaw env) swapHistory\<rparr>
                           | None \<Rightarrow> res)
                in Inr (res, Suc h)))))))"
section \<open>Patching accounts (reconciliation.ts, lines 143-483)\<close>

text \<open>
  The loop of \<open>minimalOperationsBuilderSync\<close> (lines 112-121) run with an adapter that may
  throw, as \<open>patchOperations\<close> runs it: what the adapter throws ends the call.
\<close>

fun loopSyncThrowing ::
  "(Operation \<Rightarrow> Operation \<Rightarrow> bool) \<Rightarrow> ('co \<Rightarrow> error + Operation option) \<Rightarrow> 'co list \<Rightarrow>
   StepBuilderState \<Rightarrow> nat \<Rightarrow> error + StepBuilderState" where
  "loopSyncThrowing sameOp buildOp coreOperations state 0 = Inr state"
| "loopSyncThrowing sameOp buildOp coreOperations state (Suc i) =
     (case buildOp (coreOperations ! i) of
        Inl e \<Rightarrow> Inl e
      | Inr None \<Rightarrow> loopSyncThrowing sameOp buildOp coreOperations state i
      | Inr (Some newOp) \<Rightarrow>
          (let state = stepBuilder sameOp state newOp i
           in if finished state then Inr state
              else loopSyncThrowing sameOp buildOp coreOperations state i))"

text \<open>
  \<open>patchOperations\<close>, lines 472-483: the raw list is copied, reversed and walked by
  \<open>minimalOperationsBuilderSync\<close>, whose adapter is \<open>fromOperationRaw\<close>. The object the
  adapter builds for the record at index \<open>i\<close> of the reversed list is at \<open>h + i\<close>, and the
  arrays of the builder come after these. The result is the list returned and the
  allocator state after the call, or the error thrown. (\<open>ops\<close> is the parameter
  \<open>operations\<close>.)
\<close>

definition patchOperations ::
  "env \<Rightarrow> addr \<Rightarrow> OpArray \<Rightarrow> OperationRaw list \<Rightarrow> string \<Rightarrow> SubAccount list option \<Rightarrow>
   error + OpArray \<times> addr" where
  "patchOperations env h ops updated accountId subAccounts =
     (let coreOperations = enumerate 0 (rev updated);
          buildOp = (\<lambda>(i, raw). case fromOperationRaw env raw accountId subAccounts of
                                  Inl e \<Rightarrow> Inl e
                                | Inr op \<Rightarrow> Inr (Some (op\<lparr>op_ref := h + i\<rparr>)));
          h' = h + length updated
      in if length (elems ops) = 0 \<and> length coreOperations = 0 then Inr (ops, h')
         else (case loopSyncThrowing (x_sameOp env) buildOp coreOperations (initialState h' ops)
                      (length coreOperations) of
                 Inl e \<Rightarrow> Inl e
               | Inr state \<Rightarrow> Inr (operations state, nextRef state)))"

text \<open>
  \<open>raw && raw !== date.toISOString()\<close>: the date is printed, and the print may throw, only
  when the raw date is truthy; the result is whether the two differ.
\<close>

definition differsFromDate :: "env \<Rightarrow> string option \<Rightarrow> JsDate \<Rightarrow> error + bool" where
  "differsFromDate env raw date =
     (if truthy raw then
        (case x_toISOString env date of
           Inl e \<Rightarrow> Inl e
         | Inr printed \<Rightarrow> Inr (the raw \<noteq> printed))
      else Inr False)"

text \<open>Lines 431-457 of \<open>patchSubAccount\<close>: the fields of a token account.\<close>

definition patchTokenFields ::
  "env \<Rightarrow> SubAccount \<Rightarrow> SubAccountRaw \<Rightarrow> SubAccount \<times> bool \<Rightarrow> error + SubAccount \<times> bool" where
  "patchTokenFields env account updatedRaw nc =
     (case nc of (next, changed) \<Rightarrow>
        if sa_type next = ''TokenAccount'' \<and> sa_type account = ''TokenAccount''
           \<and> sar_type updatedRaw = ''TokenAccountRaw''
        then
          (case sa_spendableBalance account of
             None \<Rightarrow> Inl (TypeError ''Cannot read properties of undefined'')
           | Some spendable \<Rightarrow>
               (let (next, changed) =
                      (if sar_spendableBalance updatedRaw \<noteq> Some (x_bnToString env spendable)
                       then (next\<lparr>sa_spendableBalance :=
                                    Some (x_newBigNumber env
                                            (orElse (sar_spendableBalance updatedRaw)
                                               (sar_balance updatedRaw)))\<rparr>, True)
                       else (next, changed));
                    (next, changed) =
                      (if sar_compoundBalance updatedRaw
                            \<noteq> map_option (x_bnToString env) (sa_compoundBalance account)
                       then (next\<lparr>sa_compoundBalance :=
                                    (if truthy (sar_compoundBalance updatedRaw)
                                     then Some (x_newBigNumber env (the (sar_compoundBalance updatedRaw)))
                                     else None)\<rparr>, True)
                       else (next, changed));
                    (next, changed) =
                      (if sar_approvals updatedRaw \<noteq> None
                            \<and> sar_approvals updatedRaw \<noteq> sa_approvals account
                       then (next\<lparr>sa_approvals := sar_approvals updatedRaw\<rparr>, True)
                       else (next, changed))
                in Inr (next, changed)))
        else Inr (next, changed))"

text \<open>
  \<open>patchSubAccount(account, updatedRaw)\<close>, lines 371-471 (\<open>ops\<close> and \<open>pendingOps\<close> are
  the constants \<open>operations\<close> and \<open>pendingOperations\<close>). What \<open>patchOperations\<close>, the
  print of the cached creation date or the read of the cached \<open>spendableBalance\<close> throws
  ends the call.
\<close>

definition patchSubAccount ::
  "env \<Rightarrow> addr \<Rightarrow> SubAccount option \<Rightarrow> SubAccountRaw \<Rightarrow> error + SubAccount \<times> addr" where
  "patchSubAccount env h accountOpt updatedRaw =
     (case accountOpt of
        None \<Rightarrow> fromSubAccountRaw env h updatedRaw
      | Some account \<Rightarrow>
          if sa_id account \<noteq> sar_id updatedRaw \<or> sa_parentId account \<noteq> sar_parentId updatedRaw
          then fromSubAccountRaw env h updatedRaw
          else
            (case patchOperations env h (sa_operations account) (sar_operations updatedRaw)
                    (sar_id updatedRaw) None of
               Inl e \<Rightarrow> Inl e
             | Inr (ops, h) \<Rightarrow>
            (case patchOperations env h (sa_pendingOperations account)
                    (sar_pendingOperations updatedRaw) (sar_id updatedRaw) None of
               Inl e \<Rightarrow> Inl e
             | Inr (pendingOps, h) \<Rightarrow>
            (let next = account\<lparr>sa_ref := h\<rparr>;
                 h = Suc h;
                 changed = False;
                 (next, changed) =
                   (case sar_operationsCount updatedRaw of
                      None \<Rightarrow> (next, changed)
                    | Some n \<Rightarrow>
                        if sa_operationsCount account \<noteq> n \<and> n \<noteq> 0
                        then (next\<lparr>sa_operationsCount := n\<rparr>, True)
                        else (next, changed))
             in
            (case differsFromDate env (sar_creationDate updatedRaw) (sa_creationDate account) of
               Inl e \<Rightarrow> Inl e
             | Inr creationDateDiffers \<Rightarrow>
            (let (next, changed) =
                   (if creationDateDiffers
                    then (next\<lparr>sa_creationDate :=
                                 x_newDate env (the (sar_creationDate updatedRaw))\<rparr>, True)
                    else (next, changed));
                 (next, changed) =
                   (if arr_ref (sa_operations account) \<noteq> arr_ref ops
                    then (next\<lparr>sa_operations := ops\<rparr>, True)
                    else (next, changed));
                 (next, changed) =
                   (if arr_ref (sa_pendingOperations account) \<noteq> arr_ref pendingOps
                    then (next\<lparr>sa_pendingOperations := pendingOps\<rparr>, True)
                    else (next, changed));
                 (next, changed) =
                   (if sar_balance updatedRaw \<noteq> x_bnToString env (sa_balance account)
                    then (next\<lparr>sa_balance := x_newBigNumber env (sar_balance updatedRaw)\<rparr>, True)
                    else (next, changed))
             in case patchTokenFields env account updatedRaw (next, changed) of
                  Inl e \<Rightarrow> Inl e
                | Inr (next, changed) \<Rightarrow>
                    (let (next, changed) =
                           (case sar_balanceHistoryCache updatedRaw of
                              None \<Rightarrow> (next, changed)
                            | Some balanceHistoryCache \<Rightarrow>
                                if shouldRefreshBalanceHistoryCache balanceHistoryCache
                                     (sa_balanceHistoryCache account)
                                then (next\<lparr>sa_balanceHistoryCache := balanceHistoryCache\<rparr>, True)
                                else (next, changed))
                     in if \<not> changed then Inr (account, h) else Inr (next, h))))))))"

text \<open>\<open>shouldRefreshBitcoinResources(updatedRaw, account)\<close>, lines 143-157.\<close>

definition shouldRefreshBitcoinResources :: "env \<Rightarrow> AccountRaw \<Rightarrow> Account \<Rightarrow> bool" where
  "shouldRefreshBitcoinResources env updatedRaw account =
     (case accr_bitcoinResources updatedRaw of
        None \<Rightarrow> False
      | Some raw \<Rightarrow>
          (case acc_bitcoinResources account of
             None \<Rightarrow> True
           | Some existing \<Rightarrow>
               if accr_blockHeight updatedRaw \<noteq> acc_blockHeight account then True
               else if length (accr_operations updatedRaw) \<noteq> length (elems (acc_operations account))
               then True
               else if length (btcr_utxos raw) \<noteq> length (btc_utxos existing) then True
               else \<not> x_isEqualUtxos env (btcr_utxos raw) (btc_utxos existing)))"

text \<open>
  The callback of \<open>updatedRaw.subAccounts.map\<close> in \<open>patchAccount\<close>, over the whole list:
  the patched sub-accounts, whether one of them is not the object found for it, and the
  allocator state; or the error thrown.
\<close>

fun patchSubAccounts ::
  "env \<Rightarrow> addr \<Rightarrow> SubAccount list \<Rightarrow> SubAccountRaw list \<Rightarrow>
   error + (SubAccount list \<times> bool) \<times> addr" where
  "patchSubAccounts env h existingSubAccounts [] = Inr (([], False), h)"
| "patchSubAccounts env h existingSubAccounts (ta # tas) =
     (let existing = find (\<lambda>t. sa_id t = sar_id ta) existingSubAccounts
      in case patchSubAccount env h existing ta of
           Inl e \<Rightarrow> Inl e
         | Inr (patched, h) \<Rightarrow>
             (case patchSubAccounts env h existingSubAccounts tas of
                Inl e \<Rightarrow> Inl e
              | Inr ((rest, subAccountsChanged), h) \<Rightarrow>
                  Inr ((patched # rest,
                        (case existing of
                           None \<Rightarrow> True
                         | Some x \<Rightarrow> sa_ref patched \<noteq> sa_ref x) \<or> subAccountsChanged),
                       h)))"

text \<open>
  Lines 165-185 of \<open>patchAccount\<close>: the value of \<open>subAccounts\<close> (\<open>None\<close> is
  \<open>undefined\<close>) and the allocator state.
\<close>

definition patchedSubAccounts ::
  "env \<Rightarrow> addr \<Rightarrow> Account \<Rightarrow> AccountRaw \<Rightarrow> error + SubArray option \<times> addr" where
  "patchedSubAccounts env h account updatedRaw =
     (case accr_subAccounts updatedRaw of
        None \<Rightarrow> Inr (None, h)
      | Some rawSubAccounts \<Rightarrow>
          (let (existingSubAccounts, h) =
                 (case acc_subAccounts account of
                    Some a \<Rightarrow> (a, h)
                  | None \<Rightarrow> (\<lparr>subs_ref = h, subs_elems = []\<rparr>, Suc h))
           in case patchSubAccounts env h (subs_elems existingSubAccounts) rawSubAccounts of
                Inl e \<Rightarrow> Inl e
              | Inr ((patched, anyPatched), h) \<Rightarrow>
                  (let subAccountsChanged =
                         (length rawSubAccounts \<noteq> length (subs_elems existingSubAccounts)
                          \<or> anyPatched)
                   in if \<not> subAccountsChanged then Inr (Some existingSubAccounts, Suc h)
                      else Inr (Some \<lparr>subs_ref = h, subs_elems = patched\<rparr>, Suc h))))"

text \<open>
  The \<open>switch (account.currency.family)\<close> of \<open>patchAccount\<close>, lines 286-356, on \<open>next\<close>
  and \<open>changed\<close>.
\<close>

definition patchFamilyResources ::
  "env \<Rightarrow> Account \<Rightarrow> AccountRaw \<Rightarrow> Account \<times> bool \<Rightarrow> Account \<times> bool" where
  "patchFamilyResources env account updatedRaw nc =
     (case nc of (next, changed) \<Rightarrow>
        if cur_family (acc_currency account) = ''bitcoin'' then
          (if shouldRefreshBitcoinResources env updatedRaw account
           then (next\<lparr>acc_bitcoinResources :=
                        Some (x_fromBitcoinResourcesRaw env (the (accr_bitcoinResources updatedRaw)))\<rparr>,
                 changed)
           else (next, changed))
        else if cur_family (acc_currency account) = ''polkadot'' then
          (case accr_polkadotResources updatedRaw of
             None \<Rightarrow> (next, changed)
           | Some raw \<Rightarrow>
               if (case acc_polkadotResources account of
                     None \<Rightarrow> True
                   | Some existing \<Rightarrow> x_toPolkadotResourcesRaw env existing \<noteq> raw)
               then (next\<lparr>acc_polkadotResources := Some (x_fromPolkadotResourcesRaw env raw)\<rparr>,
                     True)
               else (next, changed))
        else if cur_family (acc_currency account) = ''zilliqa'' then
          (case accr_zilliqaResources updatedRaw of
             None \<Rightarrow> (next, changed)
           | Some raw \<Rightarrow>
               if (case acc_zilliqaResources account of
                     None \<Rightarrow> True
                   | Some existing \<Rightarrow> x_toZilliqaResourcesRaw env existing \<noteq> raw)
               then (next\<lparr>acc_zilliqaResources := Some (x_fromZilliqaResourcesRaw env raw)\<rparr>,
                     True)
               else (next, changed))
        else if cur_family (acc_currency account) = ''crypto_org'' then
          (case accr_cryptoOrgResources updatedRaw of
             None \<Rightarrow> (next, changed)
           | Some raw \<Rightarrow>
               if (case acc_cryptoOrgResources account of
                     None \<Rightarrow> True
                   | Some existing \<Rightarrow> x_toCryptoOrgResourcesRaw env existing \<noteq> raw)
               then (next\<lparr>acc_cryptoOrgResources := Some (x_fromCryptoOrgResourcesRaw env raw)\<rparr>,
                     True)
               else (next, changed))
        else
          (case x_applyReconciliation env account of
             None \<Rightarrow> (next, changed)
           | Some applyReconciliation \<Rightarrow>
               if changed then (next, True)
               else (case applyReconciliation account updatedRaw next of
                       (verdict, next') \<Rightarrow> (next'\<lparr>acc_ref := acc_ref next\<rparr>, verdict))))"

text \<open>
  \<open>patchAccount(account, updatedRaw)\<close>, lines 159-370 (\<open>ops\<close> and \<open>pendingOps\<close> are the
  constants \<open>operations\<close> and \<open>pendingOperations\<close>). \<open>isEqual\<close> on the NFT lists is equality
  of their contents. What the patch of a sub-account, \<open>patchOperations\<close> or the print of a
  cached date throws ends the call.
\<close>

definition patchAccount :: "env \<Rightarrow> addr \<Rightarrow> Account \<Rightarrow> AccountRaw \<Rightarrow> error + Account \<times> addr" where
  "patchAccount env h account updatedRaw =
     (if acc_id account \<noteq> accr_id updatedRaw then fromAccountRaw env h updatedRaw
      else
        (case patchedSubAccounts env h account updatedRaw of
           Inl e \<Rightarrow> Inl e
         | Inr (subAccounts, h) \<Rightarrow>
             (case patchOperations env h (acc_operations account) (accr_operations updatedRaw)
                     (accr_id updatedRaw) (map_option subs_elems subAccounts) of
                Inl e \<Rightarrow> Inl e
              | Inr (ops, h) \<Rightarrow>
             (case patchOperations env h (acc_pendingOperations account)
                     (accr_pendingOperations updatedRaw) (accr_id updatedRaw)
                     (map_option subs_elems subAccounts) of
                Inl e \<Rightarrow> Inl e
              | Inr (pendingOps, h) \<Rightarrow>
             (let next = account\<lparr>acc_ref := h\<rparr>;
                  h = Suc h;
                  changed = False;
                  (next, changed) =
                    (case subAccounts of
                       None \<Rightarrow> (next, changed)
                     | Some s \<Rightarrow>
                         if (case acc_subAccounts account of
                               None \<Rightarrow> True
                             | Some a \<Rightarrow> subs_ref a \<noteq> subs_ref s)
                         then (next\<lparr>acc_subAccounts := Some s\<rparr>, True)
                         else (next, changed));
                  (next, changed) =
                    (if arr_ref (acc_operations account) \<noteq> arr_ref ops
                     then (next\<lparr>acc_operations := ops\<rparr>, True)
                     else (next, changed));
                  (next, changed) =
                    (case accr_operationsCount updatedRaw of
                       None \<Rightarrow> (next, changed)
                     | Some n \<Rightarrow>
                         if acc_operationsCount account \<noteq> n \<and> n \<noteq> 0
                         then (next\<lparr>acc_operationsCount := n\<rparr>, True)
                         else (next, changed));
                  (next, changed) =
                    (if arr_ref (acc_pendingOperations account) \<noteq> arr_ref pendingOps
                     then (next\<lparr>acc_pendingOperations := pendingOps\<rparr>, True)
                     else (next, changed));
                  (next, changed) =
                    (if accr_balance updatedRaw \<noteq> x_bnToString env (acc_balance account)
                     then (next\<lparr>acc_balance := x_newBigNumber env (accr_balance updatedRaw)\<rparr>,
                           True)
                     else (next, changed));
                  (next, changed) =
                    (if accr_spendableBalance updatedRaw
                          \<noteq> Some (x_bnToString env (acc_spendableBalance account))
                     then (next\<lparr>acc_spendableBalance :=
                                  x_newBigNumber env
                                    (orElse (accr_spendableBalance updatedRaw)
                                       (accr_balance updatedRaw))\<rparr>, True)
                     else (next, changed))
              in
             (case x_toISOString env (acc_lastSyncDate account) of
                Inl e \<Rightarrow> Inl e
              | Inr lastSyncDate \<Rightarrow>
             (let (next, changed) =
                    (if accr_lastSyncDate updatedRaw \<noteq> lastSyncDate
                     then (next\<lparr>acc_lastSyncDate := x_newDate env (accr_lastSyncDate updatedRaw)\<rparr>,
                           True)
                     else (next, changed))
              in
             (case differsFromDate env (accr_creationDate updatedRaw) (acc_creationDate account) of
                Inl e \<Rightarrow> Inl e
              | Inr creationDateDiffers \<Rightarrow>
             (let (next, changed) =
                    (if creationDateDiffers
                     then (next\<lparr>acc_creationDate :=
                                  x_newDate env (the (accr_creationDate updatedRaw))\<rparr>, True)
                     else (next, changed));
                  (next, changed) =
                    (if acc_freshAddress account \<noteq> accr_freshAddress updatedRaw
                     then (next\<lparr>acc_freshAddress := accr_freshAddress updatedRaw\<rparr>, True)
                     else (next, changed));
                  (next, changed) =
                    (if acc_freshAddressPath account \<noteq> accr_freshAddressPath updatedRaw
                     then (next\<lparr>acc_freshAddressPath := accr_freshAddressPath updatedRaw\<rparr>, True)
                     else (next, changed));
                  (next, changed) =
                    (if acc_blockHeight account \<noteq> accr_blockHeight updatedRaw
                     then (next\<lparr>acc_blockHeight := accr_blockHeight updatedRaw\<rparr>, True)
                     else (next, changed));
                  (next, changed) =
                    (if acc_syncHash account \<noteq> accr_syncHash updatedRaw
                     then (next\<lparr>acc_syncHash := accr_syncHash updatedRaw\<rparr>, True)
                     else (next, changed));
                  (next, changed) =
                    (case accr_balanceHistoryCache updatedRaw of
                       None \<Rightarrow> (next, changed)
                     | Some balanceHistoryCache \<Rightarrow>
                         if shouldRefreshBalanceHistoryCache balanceHistoryCache
                              (acc_balanceHistoryCache account)
                         then (next\<lparr>acc_balanceHistoryCache := balanceHistoryCache\<rparr>, True)
                         else (next, changed));
                  (next, changed) = patchFamilyResources env account updatedRaw (next, changed);
                  nfts = map_option (map (fromNFTRaw env)) (accr_nfts updatedRaw);
                  (next, changed) =
                    (if accr_nfts updatedRaw = None \<and> acc_nfts account \<noteq> None
                     then (next\<lparr>acc_nfts := None\<rparr>, True)
                     else if acc_nfts account \<noteq> nfts
                     then (next\<lparr>acc_nfts := nfts\<rparr>, True)
                     else (next, changed))
              in if \<not> changed then Inr (account, h) else Inr (next, h))))))))))"

section \<open>Sample data\<close>

subsection \<open>Sample operations\<close>

text \<open>
  The operations of the end-to-end scenario: \<open>o1\<close> and \<open>o2\<close> are cached, \<open>o3\<close> is new and
  pending. The primed ones are the objects the adapter builds for the same records, at
  addresses of their own.
\<close>

definition mkOp :: "addr \<Rightarrow> string \<Rightarrow> string \<Rightarrow> int nullable \<Rightarrow> Operation" where
  "mkOp r i h b =
     \<lparr>op_ref = r, op_id = i, op_hash = h, op_accountId = ''acc'', op_blockHeight = b,
      op_amount = 1, op_extra = []\<rparr>"

definition o1 :: Operation where "o1 = mkOp 1 ''o1'' ''h1'' (Val 40)"
definition o2 :: Operation where "o2 = mkOp 2 ''o2'' ''h2'' (Val 50)"
definition o1' :: Operation where "o1' = mkOp 11 ''o1'' ''h1'' (Val 40)"
definition o2' :: Operation where "o2' = mkOp 12 ''o2'' ''h2'' (Val 50)"
definition o3' :: Operation where "o3' = mkOp 13 ''o3'' ''h3'' Null"

text \<open>
  A cached \<open>o2\<close> that an earlier version derived with another amount; a cached pending \<open>o3\<close>
  and the confirmed operation built for it later.
\<close>

definition o2stale :: Operation where "o2stale = (mkOp 2 ''o2'' ''h2'' (Val 50))\<lparr>op_amount := 7\<rparr>"
definition o3 :: Operation where "o3 = mkOp 3 ''o3'' ''h3'' Null"
definition o3c :: Operation where "o3c = mkOp 14 ''o3'' ''h3'' (Val 100)"

text \<open>An adapter over raw records named by their id; any other record is skipped.\<close>

definition sampleBuild :: "string \<Rightarrow> Operation option" where
  "sampleBuild c =
     (if c = ''o1'' then Some o1' else if c = ''o2'' then Some o2'
      else if c = ''o3'' then Some o3' else if c = ''o3c'' then Some o3c else None)"

text \<open>
  Three records \<open>a1\<close>, \<open>a2\<close>, \<open>a3\<close> of one transaction (one hash) and a record \<open>b\<close> of
  another; a merger that takes the first operation of the group and adds up the amounts.
\<close>

definition opA1 :: Operation where "opA1 = (mkOp 31 ''a1'' ''hA'' (Val 60))\<lparr>op_amount := 1\<rparr>"
definition opA2 :: Operation where "opA2 = (mkOp 32 ''a2'' ''hA'' (Val 60))\<lparr>op_amount := 2\<rparr>"
definition opA3 :: Operation where "opA3 = (mkOp 33 ''a3'' ''hA'' (Val 60))\<lparr>op_amount := 4\<rparr>"
definition opB :: Operation where "opB = (mkOp 34 ''b'' ''hB'' (Val 59))\<lparr>op_amount := 8\<rparr>"

definition mergeBuild :: "string \<Rightarrow> Operation option" where
  "mergeBuild c =
     (if c = ''a1'' then Some opA1 else if c = ''a2'' then Some opA2
      else if c = ''a3'' then Some opA3 else if c = ''b'' then Some opB else None)"

definition sumAmounts :: "Operation list \<Rightarrow> Operation" where
  "sumAmounts ops =
     (case ops of
        [] \<Rightarrow> mkOp 0 [] [] Undefined
      | x # xs \<Rightarrow> x\<lparr>op_ref := 100 + op_ref x, op_amount := sum_list (map op_amount ops)\<rparr>)"

definition mergedA :: Operation where
  "mergedA = (mkOp 131 ''a1'' ''hA'' (Val 60))\<lparr>op_amount := 7\<rparr>"
definition mergedB :: Operation where
  "mergedB = (mkOp 134 ''b'' ''hB'' (Val 59))\<lparr>op_amount := 8\<rparr>"

text \<open>A \<open>sameOp\<close> for the samples: every field but the reference is compared.\<close>

definition sameFields :: "Operation \<Rightarrow> Operation \<Rightarrow> bool" where
  "sameFields a b \<longleftrightarrow> a\<lparr>op_ref := 0\<rparr> = b\<lparr>op_ref := 0\<rparr>"

text \<open>Hourly buckets: a cached one, one with another last value, and an empty one.\<close>

definition bucket :: "number nullable \<Rightarrow> number list \<Rightarrow> BalanceHistoryCache" where
  "bucket d bs =
     \<lparr>HOUR = \<lparr>latestDate = d, balances = bs\<rparr>,
      DAY = \<lparr>latestDate = Null, balances = []\<rparr>,
      WEEK = \<lparr>latestDate = Null, balances = []\<rparr>\<rparr>"

lemmas sample_defs = mkOp_def o1_def o2_def o1'_def o2'_def o3'_def o2stale_def o3_def o3c_def
  sameFields_def sampleBuild_def opA1_def opA2_def opA3_def opB_def mergeBuild_def sumAmounts_def
  mergedA_def mergedB_def

subsection \<open>A sample environment and sample accounts\<close>

text \<open>
  The libraries on the few values the samples use: amounts 0, 100 and 250, one date, the
  currencies bitcoin and polkadot, the token usdt. Histories are generated as they are
  found, bridges assign and reconcile nothing, and the resources convert by their content.
\<close>

definition sampleBigNumber :: "string \<Rightarrow> BigNumber" where
  "sampleBigNumber s =
     (if s = ''0'' then BigNumber 0 else if s = ''100'' then BigNumber 100
      else if s = ''250'' then BigNumber 250 else BigNumberNaN)"

definition sampleBnToString :: "BigNumber \<Rightarrow> string" where
  "sampleBnToString b =
     (if b = BigNumber 0 then ''0'' else if b = BigNumber 100 then ''100''
      else if b = BigNumber 250 then ''250'' else ''NaN'')"

definition sampleDate :: "string \<Rightarrow> JsDate" where
  "sampleDate s = (if s = ''2023-01-01T00:00:00.000Z'' then JsDate 1672531200000 else InvalidDate)"

definition sampleToISOString :: "JsDate \<Rightarrow> error + string" where
  "sampleToISOString d =
     (if d = InvalidDate then Inl (RangeError ''Invalid time value'')
      else if d = JsDate 1672531200000 then Inr ''2023-01-01T00:00:00.000Z''
      else Inr ''1970-01-01T00:00:00.000Z'')"

definition bitcoin :: CryptoCurrency where
  "bitcoin = \<lparr>cur_id = ''bitcoin'', cur_family = ''bitcoin'',
              cur_units = [\<lparr>unit_code = ''BTC'', unit_magnitude = 8\<rparr>]\<rparr>"

definition polkadot :: CryptoCurrency where
  "polkadot = \<lparr>cur_id = ''polkadot'', cur_family = ''polkadot'',
               cur_units = [\<lparr>unit_code = ''DOT'', unit_magnitude = 10\<rparr>]\<rparr>"

definition usdt :: TokenCurrency where
  "usdt = \<lparr>tok_id = ''usdt'', tok_ticker = ''USDT''\<rparr>"

definition sampleFindCurrency :: "string \<Rightarrow> CryptoCurrency option" where
  "sampleFindCurrency i =
     (if i = ''bitcoin'' then Some bitcoin else if i = ''polkadot'' then Some polkadot else None)"

definition sampleFindToken :: "string \<Rightarrow> TokenCurrency option" where
  "sampleFindToken i = (if i = ''usdt'' then Some usdt else None)"

definition sampleOperation :: "OperationRaw \<Rightarrow> string \<Rightarrow> SubAccount list option \<Rightarrow> Operation" where
  "sampleOperation raw accountId subAccounts =
     \<lparr>op_ref = 0, op_id = opr_id raw, op_hash = opr_hash raw, op_accountId = accountId,
      op_blockHeight = opr_blockHeight raw, op_amount = 1, op_extra = opr_extra raw\<rparr>"

definition sampleEnv :: env where
  "sampleEnv =
     \<lparr>x_sameOp = sameFields,
      x_newBigNumber = sampleBigNumber,
      x_bnToString = sampleBnToString,
      x_newDate = sampleDate,
      x_toISOString = sampleToISOString,
      x_now = JsDate 1672531200000,
      x_getCryptoCurrencyById =
        (\<lambda>i. case sampleFindCurrency i of
               None \<Rightarrow> Inl (Error ''currency not found'') | Some c \<Rightarrow> Inr c),
      x_findCryptoCurrencyById = sampleFindCurrency,
      x_getTokenById =
        (\<lambda>i. case sampleFindToken i of
               None \<Rightarrow> Inl (Error ''token not found'') | Some t \<Rightarrow> Inr t),
      x_findTokenById = sampleFindToken,
      x_emptyHistoryCache = bucket Null [],
      x_generateHistorySub = sa_balanceHistoryCache,
      x_generateHistoryAccount = acc_balanceHistoryCache,
      x_isAccountEmpty = (\<lambda>a. elems (acc_operations a) = [] \<and> acc_balance a = BigNumber 0),
      x_commonFromOperationRaw = sampleOperation,
      x_fromOperationExtraRaw = (\<lambda>accountId. None),
      x_assignFromAccountRaw = (\<lambda>a. None),
      x_applyReconciliation = (\<lambda>a. None),
      x_fromBitcoinResourcesRaw =
        (\<lambda>raw. \<lparr>btc_utxos = map (\<lambda>u. case u of BitcoinOutputRaw s \<Rightarrow> BitcoinOutput s)
                                (btcr_utxos raw),
                 btc_walletAccount = btcr_walletAccount raw\<rparr>),
      x_isEqualUtxos =
        (\<lambda>raws lives. map (\<lambda>u. case u of BitcoinOutputRaw s \<Rightarrow> s) raws
                       = map (\<lambda>u. case u of BitcoinOutput s \<Rightarrow> s) lives),
      x_fromPolkadotResourcesRaw = (\<lambda>r. case r of FamilyResourcesRaw s \<Rightarrow> FamilyResources s),
      x_toPolkadotResourcesRaw = (\<lambda>r. case r of FamilyResources s \<Rightarrow> FamilyResourcesRaw s),
      x_fromZilliqaResourcesRaw = (\<lambda>r. case r of FamilyResourcesRaw s \<Rightarrow> FamilyResources s),
      x_toZilliqaResourcesRaw = (\<lambda>r. case r of FamilyResources s \<Rightarrow> FamilyResourcesRaw s),
      x_fromCryptoOrgResourcesRaw = (\<lambda>r. case r of FamilyResourcesRaw s \<Rightarrow> FamilyResources s),
      x_toCryptoOrgResourcesRaw = (\<lambda>r. case r of FamilyResources s \<Rightarrow> FamilyResourcesRaw s)\<rparr>"

text \<open>
  A cached bitcoin account without operations, holding one unspent output, and the raw
  snapshot that agrees with it in every field but the unspent outputs.
\<close>

definition btcAccount :: Account where
  "btcAccount =
     \<lparr>acc_ref = 40,
      acc_type = ''Account'',
      acc_id = ''js:2:bitcoin:xpub1:native_segwit'',
      acc_starred = False,
      acc_used = True,
      acc_seedIdentifier = ''seed'',
      acc_derivationMode = ''native_segwit'',
      acc_index = 0,
      acc_freshAddress = ''bc1qfresh'',
      acc_freshAddressPath = ''84h/0h/0h/0/1'',
      acc_freshAddresses = [\<lparr>fa_derivationPath = ''84h/0h/0h/0/1'', fa_address = ''bc1qfresh''\<rparr>],
      acc_name = ''Bitcoin 1'',
      acc_blockHeight = 800000,
      acc_creationDate = JsDate 1672531200000,
      acc_balance = BigNumber 100,
      acc_spendableBalance = BigNumber 100,
      acc_operations = \<lparr>arr_ref = 41, elems = []\<rparr>,
      acc_operationsCount = 0,
      acc_pendingOperations = \<lparr>arr_ref = 42, elems = []\<rparr>,
      acc_unit = Some \<lparr>unit_code = ''BTC'', unit_magnitude = 8\<rparr>,
      acc_currency = bitcoin,
      acc_feesCurrency = None,
      acc_lastSyncDate = JsDate 1672531200000,
      acc_swapHistory = [],
      acc_syncHash = None,
      acc_balanceHistoryCache = bucket Null [],
      acc_nfts = None,
      acc_xpub = Some ''xpub1'',
      acc_endpointConfig = None,
      acc_subAccounts = None,
      acc_bitcoinResources =
        Some \<lparr>btc_utxos = [BitcoinOutput ''utxo-1''], btc_walletAccount = None\<rparr>,
      acc_polkadotResources = None,
      acc_zilliqaResources = None,
      acc_cryptoOrgResources = None,
      acc_familyData = []\<rparr>"

definition btcRaw :: AccountRaw where
  "btcRaw =
     \<lparr>accr_id = ''js:2:bitcoin:xpub1:native_segwit'',
      accr_seedIdentifier = ''seed'',
      accr_derivationMode = ''native_segwit'',
      accr_index = 0,
      accr_xpub = Some ''xpub1'',
      accr_starred = Some False,
      accr_used = Some True,
      accr_freshAddress = ''bc1qfresh'',
      accr_freshAddressPath = ''84h/0h/0h/0/1'',
      accr_freshAddresses = None,
      accr_name = ''Bitcoin 1'',
      accr_blockHeight = 800000,
      accr_endpointConfig = None,
      accr_currencyId = ''bitcoin'',
      accr_feesCurrencyId = None,
      accr_unitMagnitude = 8,
      accr_operations = [],
      accr_operationsCount = Some 0,
      accr_pendingOperations = [],
      accr_lastSyncDate = ''2023-01-01T00:00:00.000Z'',
      accr_creationDate = Some ''2023-01-01T00:00:00.000Z'',
      accr_balance = ''100'',
      accr_balanceHistoryCache = None,
      accr_spendableBalance = Some ''100'',
      accr_subAccounts = None,
      accr_swapHistory = None,
      accr_syncHash = None,
      accr_nfts = None,
      accr_bitcoinResources =
        Some \<lparr>btcr_utxos = [BitcoinOutputRaw ''utxo-2''], btcr_walletAccount = None\<rparr>,
      accr_polkadotResources = None,
      accr_zilliqaResources = None,
      accr_cryptoOrgResources = None,
      accr_familyData = []\<rparr>"

text \<open>
  The same pair as a polkadot account, the difference being in the polkadot resources; and
  the raw snapshot of the bitcoin account as an older version wrote it, with no
  \<open>spendableBalance\<close> and no resources.
\<close>

definition dotAccount :: Account where
  "dotAccount =
     btcAccount\<lparr>acc_currency := polkadot, acc_bitcoinResources := None,
                acc_polkadotResources := Some (FamilyResources ''nonce-1'')\<rparr>"

definition dotRaw :: AccountRaw where
  "dotRaw =
     btcRaw\<lparr>accr_currencyId := ''polkadot'', accr_bitcoinResources := None,
            accr_polkadotResources := Some (FamilyResourcesRaw ''nonce-2'')\<rparr>"

definition oldRaw :: AccountRaw where
  "oldRaw = btcRaw\<lparr>accr_spendableBalance := None, accr_bitcoinResources := None\<rparr>"

text \<open>The snapshot of the bitcoin account after its id has changed.\<close>

definition movedRaw :: AccountRaw where
  "movedRaw = btcRaw\<lparr>accr_id := ''js:2:bitcoin:xpub1:taproot''\<rparr>"

lemmas sample_account_defs = sampleBigNumber_def sampleBnToString_def sampleDate_def
  sampleToISOString_def bitcoin_def polkadot_def usdt_def sampleFindCurrency_def
  sampleFindToken_def sampleOperation_def sampleEnv_def btcAccount_def btcRaw_def
  dotAccount_def dotRaw_def oldRaw_def movedRaw_def bucket_def

text \<open>
  A raw token account and the cached object built from it; a raw record of a kind this
  version does not know.
\<close>

definition usdtRaw :: SubAccountRaw where
  "usdtRaw =
     \<lparr>sar_type = ''TokenAccountRaw'',
      sar_id = ''js:2:ethereum:0xabc:+usdt'',
      sar_parentId = ''js:2:ethereum:0xabc:'',
      sar_starred = None,
      sar_tokenId = ''usdt'',
      sar_name = [],
      sar_currencyId = [],
      sar_address = [],
      sar_operationsCount = None,
      sar_operations = [],
      sar_pendingOperations = [],
      sar_creationDate = Some ''2023-01-01T00:00:00.000Z'',
      sar_balance = ''250'',
      sar_spendableBalance = Some ''250'',
      sar_compoundBalance = None,
      sar_balanceHistoryCache = Some (bucket (Val (Num 7200)) [Num 10, Num 20]),
      sar_swapHistory = None,
      sar_approvals = None\<rparr>"

definition usdtAccount :: SubAccount where
  "usdtAccount =
     \<lparr>sa_ref = 32,
      sa_type = ''TokenAccount'',
      sa_id = ''js:2:ethereum:0xabc:+usdt'',
      sa_parentId = ''js:2:ethereum:0xabc:'',
      sa_name = None,
      sa_starred = False,
      sa_token = Some usdt,
      sa_currency = None,
      sa_address = None,
      sa_balance = BigNumber 250,
      sa_spendableBalance = Some (BigNumber 250),
      sa_compoundBalance = None,
      sa_creationDate = JsDate 1672531200000,
      sa_operationsCount = 0,
      sa_operations = \<lparr>arr_ref = 30, elems = []\<rparr>,
      sa_pendingOperations = \<lparr>arr_ref = 31, elems = []\<rparr>,
      sa_swapHistory = [],
      sa_approvals = None,
      sa_balanceHistoryCache = bucket (Val (Num 7200)) [Num 10, Num 20]\<rparr>"

definition unknownRaw :: SubAccountRaw where
  "unknownRaw = usdtRaw\<lparr>sar_type := ''NftAccountRaw''\<rparr>"

text \<open>A raw operation, and the raw token account carrying it.\<close>

definition transferRaw :: OperationRaw where
  "transferRaw =
     \<lparr>opr_id = ''js:2:ethereum:0xabc:+usdt-0xf00-IN'', opr_hash = ''0xf00'',
      opr_blockHeight = Val 16000000, opr_amount = ''250'', opr_extra = []\<rparr>"

definition usdtRawWithTransfer :: SubAccountRaw where
  "usdtRawWithTransfer = usdtRaw\<lparr>sar_operationsCount := Some 1, sar_operations := [transferRaw]\<rparr>"

lemmas sample_sub_defs = usdtRaw_def usdtAccount_def unknownRaw_def transferRaw_def
  usdtRawWithTransfer_def

section \<open>Properties of the operations builder\<close>

subsection \<open>The initial state\<close>

lemma initialState_sel [simp]:
  "operations (initialState h ex) = \<lparr>arr_ref = h, elems = []\<rparr>"
  "existingOps (initialState h ex) = ex"
  "immutableOpCmpDoneOnce (initialState h ex) = False"
  "finished (initialState h ex) = False"
  "nextRef (initialState h ex) = Suc h"
  "sameOpCalls (initialState h ex) = 0"
  "warnings (initialState h ex) = []"
  by (simp_all add: initialState_def)

subsection \<open>A walk over skipped records\<close>

lemma loopSync_all_skipped:
  "\<forall>c\<in>set coreOperations. buildOp c = None \<Longrightarrow> k \<le> length coreOperations \<Longrightarrow>
   loopSync sameOp buildOp coreOperations state k = state"
  by (induction k) simp_all

lemma loopMerge_all_skipped:
  "\<forall>c\<in>set coreOperations. buildOp c = None \<Longrightarrow> k \<le> length coreOperations \<Longrightarrow>
   loopMerge sameOp buildOp m coreOperations (state, acc) k = (state, acc)"
  by (induction k) simp_all

text \<open>
  C10. When the adapter skips every record of \<open>coreOperations\<close> (in particular when
  \<open>coreOperations\<close> is empty) and the cache is not empty, both builders return the fresh
  empty array allocated for \<open>state.operations\<close>: the cached history is dropped and its
  array is not reused. On such inputs the result is the \<open>existingOperations\<close> reference
  exactly when both input lists are empty, which is the early exit.
\<close>

theorem C10_skipped_core_discards_cache:
  assumes skip: "\<forall>c\<in>set coreOperations. buildOp c = None"
    and old: "arr_ref existingOperations < h"
  shows "(elems existingOperations \<noteq> [] \<longrightarrow>
            minimalOperationsBuilderSync sameOp h existingOperations coreOperations buildOp
              = \<lparr>arr_ref = h, elems = []\<rparr>
          \<and> minimalOperationsBuilder sameOp h existingOperations coreOperations buildOp m
              = \<lparr>arr_ref = h, elems = []\<rparr>)
       \<and> (elems existingOperations = [] \<and> coreOperations = [] \<longrightarrow>
            minimalOperationsBuilderSync sameOp h existingOperations coreOperations buildOp
              = existingOperations
          \<and> minimalOperationsBuilder sameOp h existingOperations coreOperations buildOp m
              = existingOperations)
       \<and> (arr_ref (minimalOperationsBuilderSync sameOp h existingOperations coreOperations buildOp)
            = arr_ref existingOperations
          \<longleftrightarrow> elems existingOperations = [] \<and> coreOperations = [])
       \<and> (arr_ref (minimalOperationsBuilder sameOp h existingOperations coreOperations buildOp m)
            = arr_ref existingOperations
          \<longleftrightarrow> elems existingOperations = [] \<and> coreOperations = [])"
proof -
  have s: "runSync sameOp h existingOperations coreOperations buildOp
             = initialState h existingOperations"
    using skip by (simp add: runSync_def loopSync_all_skipped)
  have m: "runMerge sameOp h existingOperations coreOperations buildOp m
             = initialState h existingOperations"
    using skip
    by (simp add: runMerge_def loopMerge_all_skipped flushMerge_def initialState_def
             split: option.splits)
  show ?thesis
    using old
    by (auto simp: minimalOperationsBuilderSync_def minimalOperationsBuilder_def s m
                   initialState_def)
qed

theorem C10_skipped_core_discards_cache_witness:
  "minimalOperationsBuilderSync sameFields 20 \<lparr>arr_ref = 5, elems = [o2, o1]\<rparr>
       [''skipped''] (\<lambda>c. None)
     = \<lparr>arr_ref = 20, elems = []\<rparr>
   \<and> minimalOperationsBuilder sameFields 20 \<lparr>arr_ref = 5, elems = [o2, o1]\<rparr>
       [''skipped''] (\<lambda>c. None) None
     = \<lparr>arr_ref = 20, elems = []\<rparr>
   \<and> arr_ref (minimalOperationsBuilderSync sameFields 20 \<lparr>arr_ref = 5, elems = [o2, o1]\<rparr>
       [''skipped''] (\<lambda>c. None)) \<noteq> 5"
  using C10_skipped_core_discards_cache
          [of "[''skipped'']" "\<lambda>c. None" "\<lparr>arr_ref = 5, elems = [o2, o1]\<rparr>" 20 sameFields None]
  by simp

subsection \<open>The finishing step\<close>

lemma loopSync_walk:
  "walkSync sameOp buildOp coreOperations k0 s0 k state \<Longrightarrow>
   loopSync sameOp buildOp coreOperations s0 k0 = loopSync sameOp buildOp coreOperations state k"
  by (induction rule: walkSync.induct) (simp_all add: Let_def)

lemma loopMerge_walk:
  "walkMerge sameOp buildOp m coreOperations k0 sa0 k sa \<Longrightarrow>
   loopMerge sameOp buildOp m coreOperations sa0 k0 = loopMerge sameOp buildOp m coreOperations sa k"
  by (induction rule: walkMerge.induct) (simp_all add: Let_def)


text \<open>The rules of the walk, with the loop counter as an equation to solve.\<close>

lemma walkSync_stepI:
  "walkSync sameOp buildOp coreOperations k0 s0 k state \<Longrightarrow> k = Suc i \<Longrightarrow>
   buildOp (coreOperations ! i) = Some newOp \<Longrightarrow>
   \<not> finished (stepBuilder sameOp state newOp i) \<Longrightarrow>
   walkSync sameOp buildOp coreOperations k0 s0 i (stepBuilder sameOp state newOp i)"
  by (auto intro: walkSync_step)

lemma callsSyncI:
  "walkSync sameOp buildOp coreOperations k0 s0 k state \<Longrightarrow> k0 = length coreOperations \<Longrightarrow>
   s0 = initialState h existingOperations \<Longrightarrow> k = Suc i \<Longrightarrow>
   buildOp (coreOperations ! i) = Some newOp \<Longrightarrow>
   callsSync sameOp h existingOperations coreOperations buildOp state newOp i"
  by (simp add: callsSync_def)

lemma findExistingOp_Some:
  "findExistingOp xs op = Some e \<Longrightarrow> e \<in> set xs \<and> op_id e = op_id op"
  by (auto simp: findExistingOp_def find_Some_iff)

lemma findExistingOp_Nil [simp]: "findExistingOp [] op = None"
  by (simp add: findExistingOp_def)

lemma indexOf_mem: "x \<in> set xs \<Longrightarrow> 0 \<le> indexOf xs x \<and> indexOf xs x < int (length xs)"
  by (induction xs) (auto simp: Let_def)

lemma slice_nonneg: "0 \<le> j \<Longrightarrow> slice xs j = drop (nat j) xs"
  by (simp add: slice_def)

lemma walkInv_initialState: "walkInv h existingOperations (initialState h existingOperations)"
  by (simp add: walkInv_def initialState_def)

lemma stepBuilder_inv:
  "walkInv h ex state \<Longrightarrow> \<not> finished (stepBuilder sameOp state newOp i) \<Longrightarrow>
   walkInv h ex (stepBuilder sameOp state newOp i)"
  by (auto simp: walkInv_def stepBuilder_def keepMatched_def push_op_def Let_def
           split: option.splits if_splits)

lemma stepBuilder_finishes:
  assumes found: "findExistingOp (elems (existingOps state)) newOp = Some existingOp"
    and matched: "immutableOpCmpDoneOnce state
                  \<or> (op_blockHeight existingOp = op_blockHeight newOp \<and> sameOp existingOp newOp)"
    and j: "j = indexOf (elems (existingOps state)) existingOp"
    and suffix: "length (slice (elems (existingOps state)) j) \<le> i + 1"
  shows "finished (stepBuilder sameOp state newOp i)
       \<and> operations (stepBuilder sameOp state newOp i)
           = (if elems (operations state) = [] \<and> j = 0 then existingOps state
              else \<lparr>arr_ref = Suc (nextRef state),
                    elems = elems (operations state) @ drop (nat j) (elems (existingOps state))\<rparr>)
       \<and> 0 \<le> j"
proof -
  have mem: "existingOp \<in> set (elems (existingOps state))"
    using found by (simp add: findExistingOp_Some)
  then have j0: "0 \<le> j" using j by (simp add: indexOf_mem)
  have k: "keepMatched state existingOp i
             = (if elems (operations state) = [] \<and> j = 0
                then state\<lparr>nextRef := Suc (nextRef state), operations := existingOps state,
                           finished := True\<rparr>
                else state\<lparr>nextRef := Suc (nextRef state),
                           operations := \<lparr>arr_ref = Suc (nextRef state),
                             elems = elems (operations state) @ drop (nat j) (elems (existingOps state))\<rparr>,
                           nextRef := Suc (Suc (nextRef state)), finished := True\<rparr>)"
    using suffix j j0 by (simp add: keepMatched_def Let_def slice_nonneg)
  have "stepBuilder sameOp state newOp i = keepMatched state existingOp i
        \<or> stepBuilder sameOp state newOp i
            = keepMatched (state\<lparr>immutableOpCmpDoneOnce := True,
                                 sameOpCalls := Suc (sameOpCalls state)\<rparr>) existingOp i"
    using found matched by (auto simp: stepBuilder_def Let_def)
  then show ?thesis
    using k j0 suffix j by (auto simp: keepMatched_def Let_def slice_nonneg)
qed


lemma walkSync_inv:
  "walkSync sameOp buildOp coreOperations k0 s0 k state \<Longrightarrow> walkInv h ex s0 \<Longrightarrow>
   walkInv h ex state \<and> k \<le> k0"
  by (induction rule: walkSync.induct) (auto intro: stepBuilder_inv)

lemma walkMerge_inv:
  "walkMerge sameOp buildOp m coreOperations k0 sa0 k sa \<Longrightarrow> walkInv h ex (fst sa0) \<Longrightarrow>
   walkInv h ex (fst sa) \<and> k \<le> k0 \<and> (snd sa0 = [] \<longrightarrow> snd sa = [] \<or> k < k0)"
  by (induction rule: walkMerge.induct) (auto intro: stepBuilder_inv)

lemma callsSync_result:
  assumes c: "callsSync sameOp h ex coreOperations buildOp state newOp i"
    and f: "finished (stepBuilder sameOp state newOp i)"
  shows "minimalOperationsBuilderSync sameOp h ex coreOperations buildOp
           = operations (stepBuilder sameOp state newOp i)
         \<and> walkInv h ex state"
proof -
  from c have w: "walkSync sameOp buildOp coreOperations (length coreOperations)
       (initialState h ex) (Suc i) state" and b: "buildOp (coreOperations ! i) = Some newOp"
    by (simp_all add: callsSync_def)
  from walkSync_inv [OF w walkInv_initialState]
  have inv: "walkInv h ex state" and le: "Suc i \<le> length coreOperations" by simp_all
  have "runSync sameOp h ex coreOperations buildOp = stepBuilder sameOp state newOp i"
    unfolding runSync_def loopSync_walk [OF w] using b f by (simp add: Let_def)
  with le inv show ?thesis by (auto simp: minimalOperationsBuilderSync_def)
qed

lemma callsMerge_result:
  assumes c: "callsMerge sameOp h ex coreOperations buildOp m state newOp i"
    and f: "finished (stepBuilder sameOp state newOp i)"
  shows "minimalOperationsBuilder sameOp h ex coreOperations buildOp m
           = operations (stepBuilder sameOp state newOp i)
         \<and> walkInv h ex state"
  using c
proof (cases rule: callsMerge.cases)
  case (callsMerge_plain acc)
  note w = callsMerge_plain(1)
  from walkMerge_inv [OF w, of h ex]
  have inv: "walkInv h ex state" and le: "Suc i \<le> length coreOperations"
    by (simp_all add: walkInv_initialState)
  have "runMerge sameOp h ex coreOperations buildOp m = stepBuilder sameOp state newOp i"
    unfolding runMerge_def loopMerge_walk [OF w] using callsMerge_plain f
    by (simp add: Let_def flushMerge_def)
  with le inv show ?thesis by (auto simp: minimalOperationsBuilder_def)
next
  case (callsMerge_release acc op merger)
  note w = callsMerge_release(2)
  from walkMerge_inv [OF w, of h ex]
  have inv: "walkInv h ex state" and le: "Suc i \<le> length coreOperations"
    by (simp_all add: walkInv_initialState)
  have "runMerge sameOp h ex coreOperations buildOp m = stepBuilder sameOp state newOp i"
    unfolding runMerge_def loopMerge_walk [OF w] using callsMerge_release f
    by (simp add: Let_def flushMerge_def)
  with le inv show ?thesis by (auto simp: minimalOperationsBuilder_def)
next
  case (callsMerge_flush acc merger)
  note w = callsMerge_flush(3)
  from walkMerge_inv [OF w, of h ex]
  have inv: "walkInv h ex state" and le: "0 < length coreOperations"
    using callsMerge_flush by (auto simp: walkInv_initialState)
  have "runMerge sameOp h ex coreOperations buildOp m = stepBuilder sameOp state newOp i"
    unfolding runMerge_def loopMerge_walk [OF w] using callsMerge_flush f inv
    by (simp add: Let_def flushMerge_def walkInv_def)
  with le inv show ?thesis by (auto simp: minimalOperationsBuilder_def)
qed

text \<open>
  C1. Take any call \<open>stepBuilder(state, newOp, i)\<close> that a run of either builder makes, in
  which \<open>newOp\<close> finds \<open>existingOp\<close> in the window, the match stands (the one-shot check
  has fired before, or block heights agree and \<open>sameOp\<close> holds), and the cached suffix \<open>rest\<close>
  from the match's position \<open>j\<close> has at most \<open>i + 1\<close> entries. If nothing has been pushed and
  \<open>j = 0\<close>, the builder returns \<open>existingOperations\<close> itself; otherwise it returns another
  array, holding what was pushed followed by the cached objects from position \<open>j\<close> on.
\<close>

theorem C1_finishing_step_result:
  assumes found: "findExistingOp (elems (existingOps state)) newOp = Some existingOp"
    and matched: "immutableOpCmpDoneOnce state
                  \<or> (op_blockHeight existingOp = op_blockHeight newOp \<and> sameOp existingOp newOp)"
    and j: "j = indexOf (elems (existingOps state)) existingOp"
    and suffix: "length (slice (elems (existingOps state)) j) \<le> i + 1"
    and old: "arr_ref existingOperations < h"
    and call: "r = minimalOperationsBuilderSync sameOp h existingOperations coreOperations buildOp
                 \<and> callsSync sameOp h existingOperations coreOperations buildOp state newOp i
               \<or> r = minimalOperationsBuilder sameOp h existingOperations coreOperations buildOp m
                 \<and> callsMerge sameOp h existingOperations coreOperations buildOp m state newOp i"
  shows "0 \<le> j \<and>
         (if length (elems (operations state)) = 0 \<and> j = 0 then r = existingOperations
          else elems r = elems (operations state) @ drop (nat j) (elems existingOperations)
               \<and> arr_ref r \<noteq> arr_ref existingOperations)"
proof -
  let ?s = "stepBuilder sameOp state newOp i"
  have fin: "finished ?s
       \<and> operations ?s
           = (if elems (operations state) = [] \<and> j = 0 then existingOps state
              else \<lparr>arr_ref = Suc (nextRef state),
                    elems = elems (operations state) @ drop (nat j) (elems (existingOps state))\<rparr>)
       \<and> 0 \<le> j"
    using found matched j suffix by (rule stepBuilder_finishes)
  from call fin have r: "r = operations ?s" and inv: "walkInv h existingOperations state"
    using callsSync_result [of sameOp h existingOperations coreOperations buildOp state newOp i]
          callsMerge_result [of sameOp h existingOperations coreOperations buildOp m state newOp i]
    by auto
  from found have "elems (existingOps state) \<noteq> []"
    by (auto dest: findExistingOp_Some)
  with inv have ex: "existingOps state = existingOperations" and h: "h < nextRef state"
    by (auto simp: walkInv_def)
  show ?thesis using fin r ex h old by auto
qed


theorem C1_finishing_step_result_witness:
  "elems (minimalOperationsBuilderSync sameFields 20 \<lparr>arr_ref = 5, elems = [o2, o1]\<rparr>
            [''o1'', ''o2'', ''o3''] sampleBuild) = [o3', o2, o1]
   \<and> arr_ref (minimalOperationsBuilderSync sameFields 20 \<lparr>arr_ref = 5, elems = [o2, o1]\<rparr>
            [''o1'', ''o2'', ''o3''] sampleBuild) \<noteq> 5
   \<and> minimalOperationsBuilderSync sameFields 20 \<lparr>arr_ref = 5, elems = [o2, o1]\<rparr>
            [''o1'', ''o2''] sampleBuild = \<lparr>arr_ref = 5, elems = [o2, o1]\<rparr>"
proof -
  let ?ex = "\<lparr>arr_ref = 5, elems = [o2, o1]\<rparr>"
  let ?s0 = "initialState 20 ?ex"
  let ?s1 = "stepBuilder sameFields ?s0 o3' 2"
  let ?c3 = "[''o1'', ''o2'', ''o3'']"
  let ?c2 = "[''o1'', ''o2'']"
  have s1: "?s1 = ?s0\<lparr>operations := \<lparr>arr_ref = 20, elems = [o3']\<rparr>\<rparr>"
    by (simp add: stepBuilder_def findExistingOp_def push_op_def initialState_def sample_defs)
  have "walkSync sameFields sampleBuild ?c3 3 ?s0 3 ?s0"
    by (rule walkSync_start)
  then have "walkSync sameFields sampleBuild ?c3 3 ?s0 2 ?s1"
    by (rule walkSync_stepI) (simp_all add: s1 sampleBuild_def)
  then have c1: "callsSync sameFields 20 ?ex ?c3 sampleBuild ?s1 o2' 1"
    by (rule callsSyncI) (simp_all add: sampleBuild_def)
  have "walkSync sameFields sampleBuild ?c2 2 ?s0 2 ?s0"
    by (rule walkSync_start)
  then have c2: "callsSync sameFields 20 ?ex ?c2 sampleBuild ?s0 o2' 1"
    by (rule callsSyncI) (simp_all add: sampleBuild_def)
  have e1: "existingOps ?s1 = ?ex" and p1: "operations ?s1 = \<lparr>arr_ref = 20, elems = [o3']\<rparr>"
    by (simp_all add: s1)
  have found1: "findExistingOp (elems (existingOps ?s1)) o2' = Some o2"
    and found2: "findExistingOp (elems (existingOps ?s0)) o2' = Some o2"
    unfolding e1 by (simp_all add: findExistingOp_def sample_defs)
  have matched1: "immutableOpCmpDoneOnce ?s1
                  \<or> (op_blockHeight o2 = op_blockHeight o2' \<and> sameFields o2 o2')"
    and matched2: "immutableOpCmpDoneOnce ?s0
                  \<or> (op_blockHeight o2 = op_blockHeight o2' \<and> sameFields o2 o2')"
    by (simp_all add: sample_defs)
  have j1: "0 = indexOf (elems (existingOps ?s1)) o2"
    and j2: "0 = indexOf (elems (existingOps ?s0)) o2"
    unfolding e1 by simp_all
  have suffix1: "length (slice (elems (existingOps ?s1)) 0) \<le> 1 + 1"
    and suffix2: "length (slice (elems (existingOps ?s0)) 0) \<le> 1 + 1"
    unfolding e1 by (simp_all add: slice_def)
  have old: "arr_ref ?ex < 20"
    by simp
  let ?r1 = "minimalOperationsBuilderSync sameFields 20 ?ex ?c3 sampleBuild"
  let ?r2 = "minimalOperationsBuilderSync sameFields 20 ?ex ?c2 sampleBuild"
  have call1: "?r1 = minimalOperationsBuilderSync sameFields 20 ?ex ?c3 sampleBuild
                 \<and> callsSync sameFields 20 ?ex ?c3 sampleBuild ?s1 o2' 1
               \<or> ?r1 = minimalOperationsBuilder sameFields 20 ?ex ?c3 sampleBuild None
                 \<and> callsMerge sameFields 20 ?ex ?c3 sampleBuild None ?s1 o2' 1"
    using c1 by simp
  have call2: "?r2 = minimalOperationsBuilderSync sameFields 20 ?ex ?c2 sampleBuild
                 \<and> callsSync sameFields 20 ?ex ?c2 sampleBuild ?s0 o2' 1
               \<or> ?r2 = minimalOperationsBuilder sameFields 20 ?ex ?c2 sampleBuild None
                 \<and> callsMerge sameFields 20 ?ex ?c2 sampleBuild None ?s0 o2' 1"
    using c2 by simp
  have a: "elems ?r1 = [o3', o2, o1] \<and> arr_ref ?r1 \<noteq> 5"
    using C1_finishing_step_result [where j = 0, OF found1 matched1 j1 suffix1 old call1]
    unfolding p1 by simp
  have b: "?r2 = ?ex"
    using C1_finishing_step_result [where j = 0, OF found2 matched2 j2 suffix2 old call2]
    by simp
  from a b show ?thesis by simp
qed
subsection \<open>The stale-cache failsafe\<close>

lemma stepBuilder_cleared:
  "elems (existingOps state) = [] \<Longrightarrow> stepBuilder sameOp state op i = push_op state op"
  by (simp add: stepBuilder_def)

lemma push_op_sel [simp]:
  "existingOps (push_op state op) = existingOps state"
  "immutableOpCmpDoneOnce (push_op state op) = immutableOpCmpDoneOnce state"
  "finished (push_op state op) = finished state"
  "nextRef (push_op state op) = nextRef state"
  "sameOpCalls (push_op state op) = sameOpCalls state"
  "warnings (push_op state op) = warnings state"
  "elems (operations (push_op state op)) = elems (operations state) @ [op]"
  "arr_ref (operations (push_op state op)) = arr_ref (operations state)"
  by (simp_all add: push_op_def)

lemma walkSync_cleared:
  "walkSync sameOp buildOp coreOperations k0 s0 k state \<Longrightarrow> elems (existingOps s0) = [] \<Longrightarrow>
   elems (existingOps state) = []"
  by (induction rule: walkSync.induct) (simp_all add: stepBuilder_cleared)

lemma walkMerge_cleared:
  "walkMerge sameOp buildOp m coreOperations k0 sa0 k sa \<Longrightarrow> elems (existingOps (fst sa0)) = [] \<Longrightarrow>
   elems (existingOps (fst sa)) = []"
  by (induction rule: walkMerge.induct) (simp_all add: stepBuilder_cleared)

lemma stepBuilder_sameOpCalls:
  "sameOpCalls state = (if immutableOpCmpDoneOnce state then 1 else 0) \<Longrightarrow>
   sameOpCalls (stepBuilder sameOp state op i)
     = (if immutableOpCmpDoneOnce (stepBuilder sameOp state op i) then 1 else 0)"
  by (auto simp: stepBuilder_def keepMatched_def push_op_def Let_def split: option.splits)

lemma loopSync_sameOpCalls:
  "sameOpCalls state = (if immutableOpCmpDoneOnce state then 1 else 0) \<Longrightarrow>
   sameOpCalls (loopSync sameOp buildOp coreOperations state k)
     = (if immutableOpCmpDoneOnce (loopSync sameOp buildOp coreOperations state k) then 1 else 0)"
proof (induction k arbitrary: state)
  case 0
  then show ?case by simp
next
  case (Suc k)
  show ?case
  proof (cases "buildOp (coreOperations ! k)")
    case None
    then show ?thesis using Suc by simp
  next
    case (Some newOp)
    note st = stepBuilder_sameOpCalls [OF Suc.prems, of sameOp newOp k]
    show ?thesis
      using Some st Suc.IH [OF st] by (simp add: Let_def)
  qed
qed

lemma loopMerge_sameOpCalls:
  "sameOpCalls state = (if immutableOpCmpDoneOnce state then 1 else 0) \<Longrightarrow>
   sameOpCalls (fst (loopMerge sameOp buildOp m coreOperations (state, acc) k))
     = (if immutableOpCmpDoneOnce (fst (loopMerge sameOp buildOp m coreOperations (state, acc) k))
        then 1 else 0)"
proof (induction k arbitrary: state acc)
  case 0
  then show ?case by simp
next
  case (Suc k)
  show ?case
  proof (cases "buildOp (coreOperations ! k)")
    case None
    then show ?thesis using Suc by simp
  next
    case (Some op)
    show ?thesis
    proof (cases m)
      case None
      note st = stepBuilder_sameOpCalls [OF Suc.prems, of sameOp op k]
      show ?thesis
        using Some None st Suc.IH [OF st] by (simp add: Let_def)
    next
      case (Some merger)
      note st = stepBuilder_sameOpCalls [OF Suc.prems, of sameOp "merger acc" k]
      show ?thesis
        using \<open>buildOp (coreOperations ! k) = Some op\<close> Some st Suc.IH [OF st] Suc.IH [OF Suc.prems]
        by (simp add: Let_def)
    qed
  qed
qed

lemma runSync_sameOpCalls:
  "sameOpCalls (runSync sameOp h ex coreOperations buildOp) \<le> 1"
  using loopSync_sameOpCalls [of "initialState h ex" sameOp buildOp coreOperations "length coreOperations"]
  by (simp add: runSync_def split: if_splits)

lemma runMerge_sameOpCalls:
  "sameOpCalls (runMerge sameOp h ex coreOperations buildOp m) \<le> 1"
proof -
  obtain s acc where l: "loopMerge sameOp buildOp m coreOperations (initialState h ex, [])
                           (length coreOperations) = (s, acc)"
    by (cases "loopMerge sameOp buildOp m coreOperations (initialState h ex, [])
                 (length coreOperations)")
  from loopMerge_sameOpCalls [of "initialState h ex" sameOp buildOp m coreOperations "[]"
         "length coreOperations"] l
  have s: "sameOpCalls s = (if immutableOpCmpDoneOnce s then 1 else 0)" by simp
  from stepBuilder_sameOpCalls [OF s]
  have "\<And>op. sameOpCalls (stepBuilder sameOp s op 0) \<le> 1"
    by (simp split: if_splits)
  with s show ?thesis
    by (simp add: runMerge_def l flushMerge_def split: option.splits if_splits)
qed

subsection \<open>Block height changes\<close>

lemma stepBuilder_height_differs:
  "findExistingOp (elems (existingOps state)) newOp = Some existingOp \<Longrightarrow>
   \<not> immutableOpCmpDoneOnce state \<Longrightarrow>
   op_blockHeight existingOp \<noteq> op_blockHeight newOp \<Longrightarrow>
   stepBuilder sameOp state newOp i = push_op state newOp"
  by (simp add: stepBuilder_def)

lemma findExistingOp_nth:
  "distinct (map op_id es) \<Longrightarrow> p < length es \<Longrightarrow> op_id x = op_id (es ! p) \<Longrightarrow>
   findExistingOp es x = Some (es ! p)"
  unfolding findExistingOp_def find_Some_iff
  by (rule exI [of _ p]) (auto simp: distinct_conv_nth)

lemma indexOf_nth:
  "distinct (map op_ref es) \<Longrightarrow> p < length es \<Longrightarrow> indexOf es (es ! p) = int p"
proof (induction es arbitrary: p)
  case Nil
  then show ?case by simp
next
  case (Cons e es)
  show ?case
  proof (cases p)
    case 0
    then show ?thesis by simp
  next
    case (Suc q)
    with Cons.prems have "op_ref e \<noteq> op_ref (es ! q)" and "indexOf es (es ! q) = int q"
      using Cons.IH [of q] by auto
    with Suc show ?thesis by (simp add: Let_def)
  qed
qed

text \<open>Once the window is empty, the rest of the walk pushes every new operation.\<close>

lemma loopSync_cleared_same_ids:
  assumes built: "map buildOp coreOperations = map Some (rev newOps)"
  shows "c \<le> length newOps \<Longrightarrow> elems (existingOps state) = [] \<Longrightarrow> \<not> finished state \<Longrightarrow>
         elems (operations state) = take (length newOps - c) newOps \<Longrightarrow>
         elems (operations (loopSync sameOp buildOp coreOperations state c)) = newOps"
proof (induction c arbitrary: state)
  case 0
  then show ?case by simp
next
  case (Suc c)
  from built have len: "length coreOperations = length newOps"
    by (metis length_map length_rev)
  let ?p = "length newOps - Suc c"
  from Suc.prems have p: "?p < length newOps" and sp: "Suc ?p = length newOps - c"
    by simp_all
  have "buildOp (coreOperations ! c) = map buildOp coreOperations ! c"
    using Suc.prems len by simp
  also have "\<dots> = Some (newOps ! ?p)"
    using Suc.prems by (simp add: built rev_nth)
  finally have b: "buildOp (coreOperations ! c) = Some (newOps ! ?p)" .
  let ?s = "push_op state (newOps ! ?p)"
  have "elems (operations ?s) = take (length newOps - c) newOps"
    using Suc.prems(4) p sp by (simp add: take_Suc_conv_app_nth [symmetric])
  then have "elems (operations (loopSync sameOp buildOp coreOperations ?s c)) = newOps"
    using Suc.prems by (intro Suc.IH) simp_all
  then show ?case
    using b Suc.prems by (simp add: stepBuilder_cleared Let_def)
qed


lemma heightChanges_eq:
  assumes "length es = length ns" and "p \<le> length ns"
    and "\<And>q. q < p \<Longrightarrow> op_blockHeight (es ! q) \<noteq> op_blockHeight (ns ! q)"
    and "p < length ns \<Longrightarrow> op_blockHeight (es ! p) = op_blockHeight (ns ! p)"
  shows "heightChanges es ns = p"
proof -
  have "takeWhile (\<lambda>(e, n). op_blockHeight e \<noteq> op_blockHeight n) (zip es ns) = take p (zip es ns)"
    using assms by (intro takeWhile_eq_take_P_nth) auto
  then show ?thesis using assms by (simp add: heightChanges_def)
qed

lemma loopSync_same_ids:
  assumes built: "map buildOp coreOperations = map Some (rev newOps)"
    and ids: "map op_id newOps = map op_id (elems existingOperations)"
    and did: "distinct (map op_id (elems existingOperations))"
    and dref: "distinct (map op_ref (elems existingOperations))"
  shows "c \<le> length newOps \<Longrightarrow> existingOps state = existingOperations \<Longrightarrow>
         \<not> immutableOpCmpDoneOnce state \<Longrightarrow> \<not> finished state \<Longrightarrow>
         elems (operations state) = take (length newOps - c) newOps \<Longrightarrow>
         (\<forall>q < length newOps - c.
            op_blockHeight (elems existingOperations ! q) \<noteq> op_blockHeight (newOps ! q)) \<Longrightarrow>
         elems (operations (loopSync sameOp buildOp coreOperations state c))
           = (let k = heightChanges (elems existingOperations) newOps
              in if k < length newOps \<and> sameOp (elems existingOperations ! k) (newOps ! k)
                 then take k newOps @ drop k (elems existingOperations) else newOps)"
proof (induction c arbitrary: state)
  case 0
  from ids have le: "length (elems existingOperations) = length newOps"
    by (metis length_map)
  have "heightChanges (elems existingOperations) newOps = length newOps"
    using 0 le by (intro heightChanges_eq) simp_all
  then show ?case using 0 by (simp add: Let_def)
next
  case (Suc c)
  let ?es = "elems existingOperations"
  from ids have le: "length ?es = length newOps"
    by (metis length_map)
  from built have len: "length coreOperations = length newOps"
    by (metis length_map length_rev)
  define p where "p = length newOps - Suc c"
  from Suc.prems have p: "p < length newOps" and sp: "Suc p = length newOps - c"
    and pc: "length newOps - p = Suc c"
    by (simp_all add: p_def)
  note prems = Suc.prems [folded p_def]
  have "buildOp (coreOperations ! c) = map buildOp coreOperations ! c"
    using Suc.prems len by simp
  also have "\<dots> = Some (newOps ! p)"
    using Suc.prems by (simp add: built rev_nth p_def)
  finally have b: "buildOp (coreOperations ! c) = Some (newOps ! p)" .
  have "op_id (newOps ! p) = map op_id newOps ! p"
    using p by simp
  also have "\<dots> = op_id (?es ! p)"
    using p le by (simp add: ids)
  finally have "findExistingOp ?es (newOps ! p) = Some (?es ! p)"
    using did p le by (intro findExistingOp_nth) simp_all
  then have found: "findExistingOp (elems (existingOps state)) (newOps ! p) = Some (?es ! p)"
    using Suc.prems by simp
  have j: "int p = indexOf (elems (existingOps state)) (?es ! p)"
    using dref p le Suc.prems by (simp add: indexOf_nth)
  have push: "elems (operations (push_op state (newOps ! p))) = take (length newOps - c) newOps"
    using prems(5) p sp by (simp add: take_Suc_conv_app_nth [symmetric])
  show ?case
  proof (cases "op_blockHeight (?es ! p) = op_blockHeight (newOps ! p)")
    case False
    have st: "stepBuilder sameOp state (newOps ! p) c = push_op state (newOps ! p)"
      using found Suc.prems False by (intro stepBuilder_height_differs) simp_all
    have "\<forall>q < length newOps - c. op_blockHeight (?es ! q) \<noteq> op_blockHeight (newOps ! q)"
      using prems(6) False sp by (metis less_Suc_eq)
    then have "elems (operations (loopSync sameOp buildOp coreOperations
                 (push_op state (newOps ! p)) c))
           = (let k = heightChanges ?es newOps
              in if k < length newOps \<and> sameOp (?es ! k) (newOps ! k)
                 then take k newOps @ drop k ?es else newOps)"
      using Suc.prems push by (intro Suc.IH) simp_all
    then show ?thesis
      using b st Suc.prems by (simp add: Let_def)
  next
    case True
    have k: "heightChanges ?es newOps = p"
      using le p prems(6) True by (intro heightChanges_eq) simp_all
    show ?thesis
    proof (cases "sameOp (?es ! p) (newOps ! p)")
      case False
      let ?s = "stepBuilder sameOp state (newOps ! p) c"
      have st: "?s = push_op (state\<lparr>immutableOpCmpDoneOnce := True,
                      sameOpCalls := Suc (sameOpCalls state),
                      warnings := warnings state @ [(newOps ! p, ?es ! p)],
                      existingOps := \<lparr>arr_ref = nextRef state, elems = []\<rparr>,
                      nextRef := Suc (nextRef state)\<rparr>) (newOps ! p)"
        using found Suc.prems True False by (simp add: stepBuilder_def Let_def)
      have "elems (operations ?s) = take (length newOps - c) newOps"
        using push by (simp add: st push_op_def)
      moreover have "elems (existingOps ?s) = []" and "\<not> finished ?s"
        using Suc.prems by (simp_all add: st)
      ultimately have "elems (operations (loopSync sameOp buildOp coreOperations ?s c)) = newOps"
        using Suc.prems by (intro loopSync_cleared_same_ids [OF built]) simp_all
      then show ?thesis
        using b k p False \<open>\<not> finished ?s\<close> by (simp add: Let_def)
    next
      case sameT: True
      let ?s = "stepBuilder sameOp state (newOps ! p) c"
      have suffix: "length (slice (elems (existingOps state)) (int p)) \<le> c + 1"
        using Suc.prems le pc by (simp add: slice_def)
      have matched: "immutableOpCmpDoneOnce state
                  \<or> (op_blockHeight (?es ! p) = op_blockHeight (newOps ! p)
                     \<and> sameOp (?es ! p) (newOps ! p))"
        using True sameT by simp
      have fin: "finished ?s
       \<and> operations ?s
           = (if elems (operations state) = [] \<and> int p = 0 then existingOps state
              else \<lparr>arr_ref = Suc (nextRef state),
                    elems = elems (operations state) @ drop (nat (int p)) (elems (existingOps state))\<rparr>)
       \<and> 0 \<le> int p"
        using found matched j suffix by (rule stepBuilder_finishes)
      then have "elems (operations ?s) = take p newOps @ drop p ?es"
        using prems by (auto simp: Let_def)
      then show ?thesis
        using b k p sameT fin by (simp add: Let_def)
    qed
  qed
qed


lemma loopMerge_no_merger:
  "fst (loopMerge sameOp buildOp None coreOperations (state, acc) k)
     = loopSync sameOp buildOp coreOperations state k"
  by (induction k arbitrary: state) (simp_all add: Let_def split: option.splits)

lemma minimalOperationsBuilder_no_merger:
  "minimalOperationsBuilder sameOp h existingOperations coreOperations buildOp None
     = minimalOperationsBuilderSync sameOp h existingOperations coreOperations buildOp"
proof -
  have "runMerge sameOp h existingOperations coreOperations buildOp None
          = fst (loopMerge sameOp buildOp None coreOperations
                  (initialState h existingOperations, []) (length coreOperations))"
    by (simp add: runMerge_def flushMerge_def split: prod.splits)
  then show ?thesis
    by (simp add: minimalOperationsBuilder_def minimalOperationsBuilderSync_def runSync_def
          loopMerge_no_merger)
qed

text \<open>
  C3. When \<open>newOp\<close> finds \<open>existingOp\<close> in the window, the one-shot check has not fired and
  the block heights differ, the step only pushes \<open>newOp\<close>: the flag, the window and
  \<open>finished\<close> stay as they were and nothing is warned. When the snapshot lists the cached
  operations again (the adapter builds, newest first, operations \<open>newOps\<close> with the ids of
  the cached list, in its order; cached ids and objects are distinct), the result has the
  length and the ids of the cached list, so nothing is duplicated, and its first \<open>k\<close>
  entries, where the block height has changed, are the newly built objects.
\<close>

theorem C3_block_height_update:
  assumes found: "findExistingOp (elems (existingOps state)) newOp = Some existingOp"
    and first: "\<not> immutableOpCmpDoneOnce state"
    and differs: "op_blockHeight existingOp \<noteq> op_blockHeight newOp"
    and built: "map buildOp coreOperations = map Some (rev newOps)"
    and ids: "map op_id newOps = map op_id (elems existingOperations)"
    and did: "distinct (map op_id (elems existingOperations))"
    and dref: "distinct (map op_ref (elems existingOperations))"
    and r: "r = minimalOperationsBuilderSync sameOp h existingOperations coreOperations buildOp"
    and k: "k = heightChanges (elems existingOperations) newOps"
  shows "stepBuilder sameOp state newOp i = push_op state newOp
       \<and> minimalOperationsBuilder sameOp h existingOperations coreOperations buildOp None = r
       \<and> length (elems r) = length (elems existingOperations)
       \<and> map op_id (elems r) = map op_id (elems existingOperations)
       \<and> take k (elems r) = take k newOps
       \<and> elems r = (if k < length newOps \<and> sameOp (elems existingOperations ! k) (newOps ! k)
                    then take k newOps @ drop k (elems existingOperations) else newOps)"
proof -
  let ?es = "elems existingOperations"
  from ids have le: "length ?es = length newOps"
    by (metis length_map)
  from built have len: "length coreOperations = length newOps"
    by (metis length_map length_rev)
  have run: "elems (operations (runSync sameOp h existingOperations coreOperations buildOp))
           = (let k = heightChanges ?es newOps
              in if k < length newOps \<and> sameOp (?es ! k) (newOps ! k)
                 then take k newOps @ drop k ?es else newOps)"
    unfolding runSync_def len
    by (rule loopSync_same_ids [OF built ids did dref]) simp_all
  have e: "elems r = (if k < length newOps \<and> sameOp (?es ! k) (newOps ! k)
                      then take k newOps @ drop k ?es else newOps)"
    using run le len by (auto simp: r k minimalOperationsBuilderSync_def Let_def)
  have "map op_id (take k newOps @ drop k ?es) = map op_id ?es"
    by (simp add: take_map [symmetric] drop_map [symmetric] ids)
  then have i: "map op_id (elems r) = map op_id ?es"
    using e ids by (simp split: if_splits)
  have l: "length (elems r) = length ?es"
    using i by (metis length_map)
  have t: "take k (elems r) = take k newOps"
    using e by (simp split: if_splits)
  show ?thesis
    using stepBuilder_height_differs [OF found first differs] e i l t
    by (simp add: minimalOperationsBuilder_no_merger r)
qed


theorem C3_block_height_update_witness:
  "stepBuilder sameFields (initialState 20 \<lparr>arr_ref = 5, elems = [o3, o2, o1]\<rparr>) o3c 2
     = push_op (initialState 20 \<lparr>arr_ref = 5, elems = [o3, o2, o1]\<rparr>) o3c
   \<and> elems (minimalOperationsBuilderSync sameFields 20 \<lparr>arr_ref = 5, elems = [o3, o2, o1]\<rparr>
        [''o1'', ''o2'', ''o3c''] sampleBuild) = [o3c, o2, o1]"
proof -
  let ?ex = "\<lparr>arr_ref = 5, elems = [o3, o2, o1]\<rparr>"
  let ?s0 = "initialState 20 ?ex"
  let ?core = "[''o1'', ''o2'', ''o3c'']"
  let ?new = "[o3c, o2', o1']"
  have found: "findExistingOp (elems (existingOps ?s0)) o3c = Some o3"
    by (simp add: findExistingOp_def sample_defs)
  have first: "\<not> immutableOpCmpDoneOnce ?s0"
    by simp
  have differs: "op_blockHeight o3 \<noteq> op_blockHeight o3c"
    by (simp add: sample_defs)
  have built: "map sampleBuild ?core = map Some (rev ?new)"
    by (simp add: sampleBuild_def)
  have ids: "map op_id ?new = map op_id (elems ?ex)"
    by (simp add: sample_defs)
  have did: "distinct (map op_id (elems ?ex))" and dref: "distinct (map op_ref (elems ?ex))"
    by (simp_all add: sample_defs)
  have k: "1 = heightChanges (elems ?ex) ?new"
    by (simp add: heightChanges_def sample_defs)
  have same: "sameFields o2 o2'"
    by (simp add: sample_defs)
  show ?thesis
    using C3_block_height_update [OF found first differs built ids did dref refl k, of sameFields 2 20]
      same
    by simp
qed
subsection \<open>Merging operations with one hash\<close>

lemma runsBy_append_run:
  assumes "acc \<noteq> []" and "\<forall>x\<in>set acc. key x = h"
    and "ys = [] \<or> key (hd ys) \<noteq> h"
  shows "runsBy key (acc @ ys) = acc # runsBy key ys"
proof -
  from assms(1) obtain a as where acc: "acc = a # as" by (cases acc) auto
  have a: "key a = h" and as: "\<And>x. x \<in> set as \<Longrightarrow> key x = h"
    using assms(2) by (simp_all add: acc)
  have ys: "takeWhile (\<lambda>y. key y = h) ys = [] \<and> dropWhile (\<lambda>y. key y = h) ys = ys"
  proof (cases ys)
    case Nil
    then show ?thesis by simp
  next
    case (Cons y ys')
    with assms(3) show ?thesis by simp
  qed
  have "takeWhile (\<lambda>y. key y = h) (as @ ys) = as @ takeWhile (\<lambda>y. key y = h) ys"
    by (rule takeWhile_append2) (rule as)
  moreover have "dropWhile (\<lambda>y. key y = h) (as @ ys) = dropWhile (\<lambda>y. key y = h) ys"
    by (rule dropWhile_append2) (rule as)
  ultimately show ?thesis
    by (simp add: acc a ys)
qed

lemma runsBy_single_run:
  assumes "acc \<noteq> []" and "\<forall>x\<in>set acc. key x = h"
  shows "runsBy key acc = [acc]"
proof -
  have "runsBy key (acc @ []) = acc # runsBy key []"
    by (rule runsBy_append_run [OF assms]) simp
  then show ?thesis by simp
qed

lemma releases_runsBy_Cons:
  "releases merger (g # runsBy key (x # xs))
     = (merger (map fst g), snd x) # releases merger (runsBy key (x # xs))"
  by simp

lemma loopMerge_skip:
  "buildOp (coreOperations ! k) = None \<Longrightarrow>
   loopMerge sameOp buildOp m coreOperations (state, acc) (Suc k)
     = loopMerge sameOp buildOp m coreOperations (state, acc) k"
  by simp

lemma loopMerge_accumulate:
  "buildOp (coreOperations ! k) = Some op \<Longrightarrow>
   length acc = 0 \<or> op_hash (acc ! 0) = op_hash op \<Longrightarrow>
   loopMerge sameOp buildOp (Some merger) coreOperations (state, acc) (Suc k)
     = loopMerge sameOp buildOp (Some merger) coreOperations (state, acc @ [op]) k"
  unfolding loopMerge.simps by (simp only: option.case if_P)

lemma loopMerge_release:
  "buildOp (coreOperations ! k) = Some op \<Longrightarrow>
   \<not> (length acc = 0 \<or> op_hash (acc ! 0) = op_hash op) \<Longrightarrow>
   loopMerge sameOp buildOp (Some merger) coreOperations (state, acc) (Suc k)
     = (if finished (stepBuilder sameOp state (merger acc) k)
        then (stepBuilder sameOp state (merger acc) k, [op])
        else loopMerge sameOp buildOp (Some merger) coreOperations
               (stepBuilder sameOp state (merger acc) k, [op]) k)"
  unfolding loopMerge.simps by (simp only: option.case if_not_P if_False Let_def)


lemma flushMerge_loopMerge:
  "\<not> finished state \<Longrightarrow> \<forall>x\<in>set accp. op_hash (fst x) = h \<Longrightarrow>
   flushMerge sameOp (Some merger)
     (loopMerge sameOp buildOp (Some merger) coreOperations (state, map fst accp) k)
   = stepsOver sameOp state
       (releases merger
          (runsBy (\<lambda>x. op_hash (fst x)) (accp @ indexedOps buildOp coreOperations k)))"
proof (induction k arbitrary: state accp h)
  case 0
  show ?case
  proof (cases "accp = []")
    case True
    then show ?thesis using 0(1) by (simp add: flushMerge_def)
  next
    case False
    have "runsBy (\<lambda>x. op_hash (fst x)) accp = [accp]"
      using False 0(2) by (rule runsBy_single_run)
    with False show ?thesis
      using 0(1) by (simp add: flushMerge_def Let_def)
  qed
next
  case (Suc k)
  let ?key = "\<lambda>x :: Operation \<times> nat. op_hash (fst x)"
  show ?case
  proof (cases "buildOp (coreOperations ! k)")
    case None
    then show ?thesis
      using Suc.IH [OF Suc.prems] by (simp add: loopMerge_skip del: loopMerge.simps)
  next
    case (Some op)
    show ?thesis
    proof (cases "length (map fst accp) = 0 \<or> op_hash (map fst accp ! 0) = op_hash op")
      case True
      have "\<forall>x\<in>set (accp @ [(op, k)]). op_hash (fst x) = op_hash op"
      proof (cases accp)
        case Nil
        then show ?thesis by simp
      next
        case (Cons a as)
        with True have "op_hash (fst a) = op_hash op" by simp
        moreover from Suc.prems(2) Cons have "op_hash (fst a) = h" by simp
        ultimately have "h = op_hash op" by simp
        with Suc.prems(2) show ?thesis by simp
      qed
      note ih = Suc.IH [OF Suc.prems(1) this]
      have ops: "accp @ indexedOps buildOp coreOperations (Suc k)
                   = (accp @ [(op, k)]) @ indexedOps buildOp coreOperations k"
        using Some by simp
      show ?thesis
        unfolding loopMerge_accumulate
            [where buildOp = buildOp and coreOperations = coreOperations and k = k, OF Some True]
          ops
        using ih by simp
    next
      case False
      then obtain a as where accp: "accp = a # as"
        by (cases accp) auto
      then have ne: "accp \<noteq> []" by simp
      from False accp have "op_hash (fst a) \<noteq> op_hash op" by simp
      moreover from Suc.prems(2) accp have "op_hash (fst a) = h" by simp
      ultimately have diff: "h \<noteq> op_hash op" by blast
      let ?xs = "indexedOps buildOp coreOperations k"
      let ?s = "stepBuilder sameOp state (merger (map fst accp)) k"
      have "runsBy ?key (accp @ (op, k) # ?xs) = accp # runsBy ?key ((op, k) # ?xs)"
        using diff by (intro runsBy_append_run [OF ne Suc.prems(2)]) simp
      then have rel: "releases merger (runsBy ?key (accp @ indexedOps buildOp coreOperations (Suc k)))
                 = (merger (map fst accp), k) # releases merger (runsBy ?key ((op, k) # ?xs))"
        using Some by (simp add: releases_runsBy_Cons del: runsBy.simps)
      note loop = loopMerge_release
        [where buildOp = buildOp and coreOperations = coreOperations and k = k, OF Some False,
         of sameOp merger state]
      show ?thesis
      proof (cases "finished ?s")
        case True
        then show ?thesis
          unfolding rel loop by (simp add: flushMerge_def Let_def)
      next
        case nf: False
        have "\<forall>x\<in>set [(op, k)]. op_hash (fst x) = op_hash op"
          by simp
        from Suc.IH [OF nf this]
        have "flushMerge sameOp (Some merger)
                  (loopMerge sameOp buildOp (Some merger) coreOperations (?s, [op]) k)
                = stepsOver sameOp ?s (releases merger (runsBy ?key ((op, k) # ?xs)))"
          by simp
        then show ?thesis
          unfolding rel loop using nf by (simp add: Let_def)
      qed
    qed
  qed
qed


lemma stepsOver_cleared:
  "elems (existingOps state) = [] \<Longrightarrow> \<not> finished state \<Longrightarrow>
   elems (operations (stepsOver sameOp state calls)) = elems (operations state) @ map fst calls
   \<and> arr_ref (operations (stepsOver sameOp state calls)) = arr_ref (operations state)"
proof (induction calls arbitrary: state)
  case Nil
  then show ?case by simp
next
  case (Cons c calls)
  obtain newOp i where c: "c = (newOp, i)" by (cases c)
  have "elems (existingOps (push_op state newOp)) = []" and "\<not> finished (push_op state newOp)"
    using Cons.prems by simp_all
  from Cons.IH [OF this] show ?case
    using Cons.prems by (simp add: c stepBuilder_cleared Let_def)
qed

lemma map_fst_releases:
  "map fst (releases merger gs) = map (\<lambda>g. merger (map fst g)) gs"
  by (induction merger gs rule: releases.induct) simp_all

lemma map_fst_indexedOps:
  "k \<le> length coreOperations \<Longrightarrow>
   map fst (indexedOps buildOp coreOperations k)
     = List.map_filter buildOp (rev (take k coreOperations))"
proof (induction k)
  case 0
  then show ?case by (simp add: List.map_filter_simps)
next
  case (Suc k)
  then have "take (Suc k) coreOperations = take k coreOperations @ [coreOperations ! k]"
    by (simp add: take_Suc_conv_app_nth)
  with Suc show ?case
    by (simp add: List.map_filter_simps split: option.splits)
qed

lemma minimalOperationsBuilder_groups:
  assumes calls: "calls = releases merger (runsBy (\<lambda>x. op_hash (fst x))
                           (indexedOps buildOp coreOperations (length coreOperations)))"
    and r: "r = minimalOperationsBuilder sameOp h existingOperations coreOperations buildOp
                  (Some merger)"
  shows "map fst (indexedOps buildOp coreOperations (length coreOperations))
           = List.map_filter buildOp (rev coreOperations)
       \<and> r = (if elems existingOperations = [] \<and> coreOperations = [] then existingOperations
              else operations (stepsOver sameOp (initialState h existingOperations) calls))
       \<and> (elems existingOperations = [] \<longrightarrow>
            elems r = map (\<lambda>g. merger (map fst g))
                        (runsBy (\<lambda>x. op_hash (fst x))
                           (indexedOps buildOp coreOperations (length coreOperations))))"
proof -
  have run: "runMerge sameOp h existingOperations coreOperations buildOp (Some merger)
               = stepsOver sameOp (initialState h existingOperations) calls"
    unfolding runMerge_def calls
    using flushMerge_loopMerge [of "initialState h existingOperations" "[]" "[]" sameOp merger
            buildOp coreOperations "length coreOperations"]
    by simp
  have r': "r = (if elems existingOperations = [] \<and> coreOperations = [] then existingOperations
              else operations (stepsOver sameOp (initialState h existingOperations) calls))"
    by (simp add: r minimalOperationsBuilder_def run)
  have "elems (operations (stepsOver sameOp (initialState h existingOperations) calls))
          = map fst calls" if "elems existingOperations = []"
    using stepsOver_cleared [of "initialState h existingOperations" sameOp calls] that
    by simp
  moreover have "calls = []" if "coreOperations = []"
    using that by (simp add: calls)
  ultimately have "elems r = map fst calls" if "elems existingOperations = []"
    using that by (simp add: r')
  then show ?thesis
    using r' by (simp add: map_fst_indexedOps calls map_fst_releases)
qed


text \<open>
  C5, as the code has it. \<open>coreOperations\<close> is read from its last record to its first, so
  the walk is newest first when the array lists the records oldest first. With a merger,
  the operations built for adjacent records of the walk that share a hash form one group
  (records the adapter skips do not break a group); every group, also a group of one, goes
  through the merger once; the merged operations are handed to the step builder in walk
  order, each when the first record of the next group is read, the last one after the loop
  with index 0, until a step finishes the walk. With an empty cache the result lists the
  merged groups in walk order.
\<close>

theorem C5_merger_groups:
  assumes calls: "calls = releases merger (runsBy (\<lambda>x. op_hash (fst x))
                           (indexedOps buildOp coreOperations (length coreOperations)))"
    and r: "r = minimalOperationsBuilder sameOp h existingOperations coreOperations buildOp
                  (Some merger)"
  shows "map fst (indexedOps buildOp coreOperations (length coreOperations))
           = List.map_filter buildOp (rev coreOperations)
       \<and> r = (if elems existingOperations = [] \<and> coreOperations = [] then existingOperations
              else operations (stepsOver sameOp (initialState h existingOperations) calls))
       \<and> (elems existingOperations = [] \<longrightarrow>
            elems r = map (\<lambda>g. merger (map fst g))
                        (runsBy (\<lambda>x. op_hash (fst x))
                           (indexedOps buildOp coreOperations (length coreOperations))))"
  using calls r by (rule minimalOperationsBuilder_groups)

lemma sample_groups_oldest_first:
  "runsBy (\<lambda>x. op_hash (fst x)) (indexedOps mergeBuild [''b'', ''a3'', ''a2'', ''a1''] 4)
     = [[(opA1, 3), (opA2, 2), (opA3, 1)], [(opB, 0)]]"
  by (simp add: eval_nat_numeral mergeBuild_def opA1_def opA2_def opA3_def opB_def mkOp_def)

lemma sample_groups_newest_first:
  "runsBy (\<lambda>x. op_hash (fst x)) (indexedOps mergeBuild [''a1'', ''a2'', ''a3'', ''b''] 4)
     = [[(opB, 3)], [(opA3, 2), (opA2, 1), (opA1, 0)]]"
  by (simp add: eval_nat_numeral mergeBuild_def opA1_def opA2_def opA3_def opB_def mkOp_def)

theorem C5_merger_groups_witness:
  "elems (minimalOperationsBuilder sameFields 20 \<lparr>arr_ref = 5, elems = []\<rparr>
            [''b'', ''a3'', ''a2'', ''a1''] mergeBuild (Some sumAmounts))
     = [mergedA, mergedB]"
proof -
  have len: "length [''b'', ''a3'', ''a2'', ''a1''] = 4"
    by simp
  note groups = C5_merger_groups
            [where buildOp = mergeBuild and coreOperations = "[''b'', ''a3'', ''a2'', ''a1'']"
               and merger = sumAmounts and sameOp = sameFields and h = 20
               and existingOperations = "\<lparr>arr_ref = 5, elems = []\<rparr>", OF refl refl,
             unfolded len sample_groups_oldest_first]
  have "elems \<lparr>arr_ref = 5, elems = []\<rparr> = []"
    by simp
  from groups [THEN conjunct2, THEN conjunct2, THEN mp, OF this] show ?thesis
    by (simp add: sumAmounts_def opA1_def opA2_def opA3_def opB_def
          mergedA_def mergedB_def mkOp_def)
qed

theorem C5_newest_first_array_counterexample:
  "elems (minimalOperationsBuilder sameFields 20 \<lparr>arr_ref = 5, elems = []\<rparr>
            [''a1'', ''a2'', ''a3'', ''b''] mergeBuild (Some sumAmounts))
     = [mergedB, (mkOp 133 ''a3'' ''hA'' (Val 60))\<lparr>op_amount := 7\<rparr>]
   \<and> map op_hash (elems (minimalOperationsBuilder sameFields 20 \<lparr>arr_ref = 5, elems = []\<rparr>
            [''a1'', ''a2'', ''a3'', ''b''] mergeBuild (Some sumAmounts)))
     \<noteq> [''hA'', ''hB'']"
proof -
  have len: "length [''a1'', ''a2'', ''a3'', ''b''] = 4"
    by simp
  note groups = minimalOperationsBuilder_groups
            [where buildOp = mergeBuild and coreOperations = "[''a1'', ''a2'', ''a3'', ''b'']"
               and merger = sumAmounts and sameOp = sameFields and h = 20
               and existingOperations = "\<lparr>arr_ref = 5, elems = []\<rparr>", OF refl refl,
             unfolded len sample_groups_newest_first]
  have "elems \<lparr>arr_ref = 5, elems = []\<rparr> = []"
    by simp
  from groups [THEN conjunct2, THEN conjunct2, THEN mp, OF this] show ?thesis
    by (simp add: sumAmounts_def opA1_def opA2_def opA3_def opB_def
          mergedB_def mkOp_def)
qed
subsection \<open>The run after the stale-cache failsafe\<close>

text \<open>With an empty window the loop pushes the operation of every record that is left.\<close>

lemma loopSync_cleared:
  "elems (existingOps state) = [] \<Longrightarrow> \<not> finished state \<Longrightarrow>
   elems (operations (loopSync sameOp buildOp coreOperations state k))
     = elems (operations state) @ map fst (indexedOps buildOp coreOperations k)
   \<and> arr_ref (operations (loopSync sameOp buildOp coreOperations state k))
       = arr_ref (operations state)"
proof (induction k arbitrary: state)
  case 0
  then show ?case by simp
next
  case (Suc k)
  show ?case
  proof (cases "buildOp (coreOperations ! k)")
    case None
    then show ?thesis using Suc by simp
  next
    case (Some newOp)
    have "elems (existingOps (push_op state newOp)) = []" and "\<not> finished (push_op state newOp)"
      using Suc.prems by simp_all
    from Suc.IH [OF this] show ?thesis
      using Some Suc.prems by (simp add: stepBuilder_cleared Let_def)
  qed
qed

lemma stepBuilder_array:
  "\<not> finished (stepBuilder sameOp state newOp i) \<Longrightarrow>
   arr_ref (operations (stepBuilder sameOp state newOp i)) = arr_ref (operations state)"
  by (auto simp: stepBuilder_def keepMatched_def push_op_def Let_def
           split: option.splits if_splits)

lemma walkSync_array:
  "walkSync sameOp buildOp coreOperations k0 s0 k state \<Longrightarrow>
   arr_ref (operations state) = arr_ref (operations s0)"
  by (induction rule: walkSync.induct) (simp_all add: stepBuilder_array)

lemma walkMerge_array:
  "walkMerge sameOp buildOp m coreOperations k0 sa0 k sa \<Longrightarrow>
   arr_ref (operations (fst sa)) = arr_ref (operations (fst sa0))"
  by (induction rule: walkMerge.induct) (simp_all add: stepBuilder_array)

text \<open>The rest of a run from a state whose window is empty.\<close>

lemma runSync_after_clearing:
  assumes w: "walkSync sameOp buildOp coreOperations (length coreOperations)
                (initialState h existingOperations) (Suc i) state"
    and b: "buildOp (coreOperations ! i) = Some newOp"
    and c: "elems (existingOps (stepBuilder sameOp state newOp i)) = []"
    and f: "\<not> finished (stepBuilder sameOp state newOp i)"
  shows "elems (minimalOperationsBuilderSync sameOp h existingOperations coreOperations buildOp)
           = elems (operations (stepBuilder sameOp state newOp i))
             @ map fst (indexedOps buildOp coreOperations i)
       \<and> arr_ref (minimalOperationsBuilderSync sameOp h existingOperations coreOperations buildOp)
           = h"
proof -
  let ?s = "stepBuilder sameOp state newOp i"
  from walkSync_inv [OF w walkInv_initialState] have n: "coreOperations \<noteq> []"
    by auto
  have "runSync sameOp h existingOperations coreOperations buildOp
          = loopSync sameOp buildOp coreOperations state (Suc i)"
    by (simp add: runSync_def loopSync_walk [OF w])
  also have "\<dots> = loopSync sameOp buildOp coreOperations ?s i"
    using b f by (simp add: Let_def)
  finally have r: "minimalOperationsBuilderSync sameOp h existingOperations coreOperations buildOp
                     = operations (loopSync sameOp buildOp coreOperations ?s i)"
    using n by (simp add: minimalOperationsBuilderSync_def)
  have "arr_ref (operations ?s) = h"
    using stepBuilder_array [OF f] walkSync_array [OF w] by simp
  with loopSync_cleared [OF c f] show ?thesis
    by (simp add: r)
qed

lemma runMerge_plain_after_clearing:
  assumes w: "walkMerge sameOp buildOp None coreOperations (length coreOperations)
                (initialState h existingOperations, []) (Suc i) (state, acc)"
    and b: "buildOp (coreOperations ! i) = Some newOp"
    and c: "elems (existingOps (stepBuilder sameOp state newOp i)) = []"
    and f: "\<not> finished (stepBuilder sameOp state newOp i)"
  shows "elems (minimalOperationsBuilder sameOp h existingOperations coreOperations buildOp None)
           = elems (operations (stepBuilder sameOp state newOp i))
             @ map fst (indexedOps buildOp coreOperations i)
       \<and> arr_ref (minimalOperationsBuilder sameOp h existingOperations coreOperations buildOp None)
           = h"
proof -
  let ?s = "stepBuilder sameOp state newOp i"
  from walkMerge_inv [OF w] walkInv_initialState have n: "coreOperations \<noteq> []"
    by fastforce
  have "fst (loopMerge sameOp buildOp None coreOperations (initialState h existingOperations, [])
               (length coreOperations))
          = fst (loopMerge sameOp buildOp None coreOperations (state, acc) (Suc i))"
    by (simp only: loopMerge_walk [OF w])
  also have "\<dots> = fst (loopMerge sameOp buildOp None coreOperations (?s, acc) i)"
    using b f by (simp add: Let_def)
  also have "\<dots> = loopSync sameOp buildOp coreOperations ?s i"
    by (rule loopMerge_no_merger)
  finally have l: "fst (loopMerge sameOp buildOp None coreOperations
                          (initialState h existingOperations, []) (length coreOperations))
                     = loopSync sameOp buildOp coreOperations ?s i" .
  have "runMerge sameOp h existingOperations coreOperations buildOp None
          = fst (loopMerge sameOp buildOp None coreOperations
                  (initialState h existingOperations, []) (length coreOperations))"
    by (simp add: runMerge_def flushMerge_def split: prod.splits)
  with l have r: "minimalOperationsBuilder sameOp h existingOperations coreOperations buildOp None
                     = operations (loopSync sameOp buildOp coreOperations ?s i)"
    using n by (simp add: minimalOperationsBuilder_def)
  have "arr_ref (operations ?s) = h"
    using stepBuilder_array [OF f] walkMerge_array [OF w] by simp
  with loopSync_cleared [OF c f] show ?thesis
    by (simp add: r)
qed

lemma runMerge_release_after_clearing:
  assumes w: "walkMerge sameOp buildOp (Some merger) coreOperations (length coreOperations)
                (initialState h existingOperations, []) (Suc i) (state, acc)"
    and b: "buildOp (coreOperations ! i) = Some op"
    and d: "\<not> (length acc = 0 \<or> op_hash (acc ! 0) = op_hash op)"
    and c: "elems (existingOps (stepBuilder sameOp state (merger acc) i)) = []"
    and f: "\<not> finished (stepBuilder sameOp state (merger acc) i)"
  shows "elems (minimalOperationsBuilder sameOp h existingOperations coreOperations buildOp
                  (Some merger))
           = elems (operations (stepBuilder sameOp state (merger acc) i))
             @ map (\<lambda>g. merger (map fst g))
                 (runsBy (\<lambda>x. op_hash (fst x)) (indexedOps buildOp coreOperations (Suc i)))
       \<and> arr_ref (minimalOperationsBuilder sameOp h existingOperations coreOperations buildOp
                    (Some merger)) = h"
proof -
  let ?s = "stepBuilder sameOp state (merger acc) i"
  let ?calls = "releases merger
                  (runsBy (\<lambda>x. op_hash (fst x)) ([(op, i)] @ indexedOps buildOp coreOperations i))"
  from walkMerge_inv [OF w] walkInv_initialState have n: "coreOperations \<noteq> []"
    by fastforce
  have "loopMerge sameOp buildOp (Some merger) coreOperations (initialState h existingOperations, [])
          (length coreOperations)
          = loopMerge sameOp buildOp (Some merger) coreOperations (state, acc) (Suc i)"
    by (rule loopMerge_walk [OF w])
  also have "\<dots> = (if finished ?s then (?s, [op])
                      else loopMerge sameOp buildOp (Some merger) coreOperations (?s, [op]) i)"
    using b d by (rule loopMerge_release)
  also have "\<dots> = loopMerge sameOp buildOp (Some merger) coreOperations (?s, map fst [(op, i)]) i"
    using f by simp
  finally have "runMerge sameOp h existingOperations coreOperations buildOp (Some merger)
                  = stepsOver sameOp ?s ?calls"
    using flushMerge_loopMerge [where accp = "[(op, i)]" and h = "op_hash op" and k = i
            and merger = merger and buildOp = buildOp and coreOperations = coreOperations, OF f]
    by (simp add: runMerge_def)
  then have r: "minimalOperationsBuilder sameOp h existingOperations coreOperations buildOp
                  (Some merger) = operations (stepsOver sameOp ?s ?calls)"
    using n by (simp add: minimalOperationsBuilder_def)
  have "arr_ref (operations ?s) = h"
    using stepBuilder_array [OF f] walkMerge_array [OF w] by simp
  with stepsOver_cleared [OF c f, of sameOp ?calls] show ?thesis
    using b by (simp add: r map_fst_releases)
qed

lemma runMerge_flush:
  assumes w: "walkMerge sameOp buildOp (Some merger) coreOperations (length coreOperations)
                (initialState h existingOperations, []) 0 (state, acc)"
    and a: "length acc \<noteq> 0"
    and f: "\<not> finished (stepBuilder sameOp state (merger acc) 0)"
  shows "minimalOperationsBuilder sameOp h existingOperations coreOperations buildOp (Some merger)
           = operations (stepBuilder sameOp state (merger acc) 0)
       \<and> arr_ref (operations (stepBuilder sameOp state (merger acc) 0)) = h"
proof -
  from walkMerge_inv [OF w] walkInv_initialState a
  have n: "coreOperations \<noteq> []" and u: "\<not> finished state"
    by (fastforce simp: walkInv_def)+
  have "loopMerge sameOp buildOp (Some merger) coreOperations (initialState h existingOperations, [])
          (length coreOperations) = (state, acc)"
    by (simp add: loopMerge_walk [OF w])
  then have "runMerge sameOp h existingOperations coreOperations buildOp (Some merger)
               = stepBuilder sameOp state (merger acc) 0"
    using a u by (simp add: runMerge_def flushMerge_def)
  moreover have "arr_ref (operations (stepBuilder sameOp state (merger acc) 0)) = h"
    using stepBuilder_array [OF f] walkMerge_array [OF w] by simp
  ultimately show ?thesis
    using n by (simp add: minimalOperationsBuilder_def)
qed

lemma walkMerge_accumulateI:
  "walkMerge sameOp buildOp m coreOperations k0 sa0 k (state, acc) \<Longrightarrow> k = Suc i \<Longrightarrow>
   buildOp (coreOperations ! i) = Some op \<Longrightarrow> m = Some merger \<Longrightarrow>
   length acc = 0 \<or> op_hash (acc ! 0) = op_hash op \<Longrightarrow> acc' = acc @ [op] \<Longrightarrow>
   walkMerge sameOp buildOp m coreOperations k0 sa0 i (state, acc')"
  by (auto intro: walkMerge_accumulate)

text \<open>
  C2. When \<open>newOp\<close> finds \<open>existingOp\<close> in the window, the one-shot check has not fired, the
  block heights agree and \<open>sameOp\<close> fails, the step raises nothing (the model has no failing
  branch): it warns, replaces the window by an empty array, pushes \<open>newOp\<close> and leaves
  \<open>finished\<close> as it was. In every state the walk comes to afterwards, no lookup finds
  anything and each step is a push. Over a whole run of either builder \<open>sameOp\<close> is called
  at most once.

  The run goes on after the step and reads every record that is left. When the step is a call
  of a run (of \<open>minimalOperationsBuilderSync\<close>, of \<open>minimalOperationsBuilder\<close> without a
  merger, or of \<open>minimalOperationsBuilder\<close> with a merger, releasing the group \<open>pending\<close> on
  reading the record at \<open>i\<close> or flushing it after the loop), the builder returns the fresh
  array at \<open>h\<close>, holding what had been pushed before the step, then \<open>newOp\<close>, then \<open>rest\<close>:
  the operations built for the records below \<open>i\<close>, in the order of the walk, and with a
  merger the merged groups of the records from \<open>i\<close> down.
\<close>

theorem C2_stale_cache_recovery:
  assumes found: "findExistingOp (elems (existingOps state)) newOp = Some existingOp"
    and first: "\<not> immutableOpCmpDoneOnce state"
    and height: "op_blockHeight existingOp = op_blockHeight newOp"
    and stale: "\<not> sameOp existingOp newOp"
    and later: "walkSync sameOp buildOp coreOperations i (stepBuilder sameOp state newOp i) k state'
                \<or> walkMerge sameOp buildOp m coreOperations i (stepBuilder sameOp state newOp i, acc)
                     k (state', acc')"
    and call:
      "r = minimalOperationsBuilderSync sameOp h existingOperations coreOperations buildOp
         \<and> callsSync sameOp h existingOperations coreOperations buildOp state newOp i
         \<and> rest = map fst (indexedOps buildOp coreOperations i)
       \<or> r = minimalOperationsBuilder sameOp h existingOperations coreOperations buildOp None
         \<and> callsMerge sameOp h existingOperations coreOperations buildOp None state newOp i
         \<and> rest = map fst (indexedOps buildOp coreOperations i)
       \<or> r = minimalOperationsBuilder sameOp h existingOperations coreOperations buildOp (Some merger)
         \<and> walkMerge sameOp buildOp (Some merger) coreOperations (length coreOperations)
             (initialState h existingOperations, []) (Suc i) (state, pending)
         \<and> buildOp (coreOperations ! i) = Some nextOp
         \<and> \<not> (length pending = 0 \<or> op_hash (pending ! 0) = op_hash nextOp)
         \<and> newOp = merger pending
         \<and> rest = map (\<lambda>g. merger (map fst g))
                    (runsBy (\<lambda>x. op_hash (fst x)) (indexedOps buildOp coreOperations (Suc i)))
       \<or> r = minimalOperationsBuilder sameOp h existingOperations coreOperations buildOp (Some merger)
         \<and> walkMerge sameOp buildOp (Some merger) coreOperations (length coreOperations)
             (initialState h existingOperations, []) 0 (state, pending)
         \<and> length pending \<noteq> 0
         \<and> newOp = merger pending
         \<and> i = 0
         \<and> rest = []"
  shows "elems (existingOps (stepBuilder sameOp state newOp i)) = []
       \<and> elems (operations (stepBuilder sameOp state newOp i)) = elems (operations state) @ [newOp]
       \<and> arr_ref (operations (stepBuilder sameOp state newOp i)) = arr_ref (operations state)
       \<and> finished (stepBuilder sameOp state newOp i) = finished state
       \<and> immutableOpCmpDoneOnce (stepBuilder sameOp state newOp i)
       \<and> warnings (stepBuilder sameOp state newOp i) = warnings state @ [(newOp, existingOp)]
       \<and> findExistingOp (elems (existingOps state')) op = None
       \<and> stepBuilder sameOp state' op k' = push_op state' op
       \<and> sameOpCalls (runSync sameOp h existingOperations coreOperations buildOp) \<le> 1
       \<and> sameOpCalls (runMerge sameOp h existingOperations coreOperations buildOp m) \<le> 1
       \<and> elems r = elems (operations state) @ newOp # rest
       \<and> arr_ref r = h"
proof -
  let ?s = "stepBuilder sameOp state newOp i"
  have s: "?s = push_op (state\<lparr>immutableOpCmpDoneOnce := True,
                      sameOpCalls := Suc (sameOpCalls state),
                      warnings := warnings state @ [(newOp, existingOp)],
                      existingOps := \<lparr>arr_ref = nextRef state, elems = []\<rparr>,
                      nextRef := Suc (nextRef state)\<rparr>) newOp"
    using found first height stale by (simp add: stepBuilder_def Let_def)
  have c: "elems (existingOps ?s) = []"
    by (simp add: s)
  have e: "elems (operations ?s) = elems (operations state) @ [newOp]"
    by (simp add: s)
  have fs: "finished ?s = finished state"
    by (simp add: s)
  from later have c': "elems (existingOps state') = []"
    using walkSync_cleared [OF _ c] walkMerge_cleared [of _ _ _ _ _ "(?s, acc)" _ "(state', acc')"] c
    by auto
  have calls: "sameOpCalls (runSync sameOp h existingOperations coreOperations buildOp) \<le> 1
         \<and> sameOpCalls (runMerge sameOp h existingOperations coreOperations buildOp m) \<le> 1"
    by (intro conjI runSync_sameOpCalls runMerge_sameOpCalls)
  have run: "elems r = elems (operations state) @ newOp # rest \<and> arr_ref r = h"
  proof -
    consider
      (sync) "r = minimalOperationsBuilderSync sameOp h existingOperations coreOperations buildOp"
        "callsSync sameOp h existingOperations coreOperations buildOp state newOp i"
        "rest = map fst (indexedOps buildOp coreOperations i)"
    | (plain) "r = minimalOperationsBuilder sameOp h existingOperations coreOperations buildOp None"
        "callsMerge sameOp h existingOperations coreOperations buildOp None state newOp i"
        "rest = map fst (indexedOps buildOp coreOperations i)"
    | (release) "r = minimalOperationsBuilder sameOp h existingOperations coreOperations buildOp
                       (Some merger)"
        "walkMerge sameOp buildOp (Some merger) coreOperations (length coreOperations)
           (initialState h existingOperations, []) (Suc i) (state, pending)"
        "buildOp (coreOperations ! i) = Some nextOp"
        "\<not> (length pending = 0 \<or> op_hash (pending ! 0) = op_hash nextOp)"
        "newOp = merger pending"
        "rest = map (\<lambda>g. merger (map fst g))
                  (runsBy (\<lambda>x. op_hash (fst x)) (indexedOps buildOp coreOperations (Suc i)))"
    | (flush) "r = minimalOperationsBuilder sameOp h existingOperations coreOperations buildOp
                     (Some merger)"
        "walkMerge sameOp buildOp (Some merger) coreOperations (length coreOperations)
           (initialState h existingOperations, []) 0 (state, pending)"
        "length pending \<noteq> 0" "newOp = merger pending" "i = 0" "rest = []"
      using call by blast
    then show ?thesis
    proof cases
      case sync
      then have w: "walkSync sameOp buildOp coreOperations (length coreOperations)
                      (initialState h existingOperations) (Suc i) state"
        and b: "buildOp (coreOperations ! i) = Some newOp"
        by (simp_all add: callsSync_def)
      from walkSync_inv [OF w walkInv_initialState] have f: "\<not> finished ?s"
        by (simp add: fs walkInv_def)
      from runSync_after_clearing [OF w b c f] show ?thesis
        by (simp add: sync e)
    next
      case plain
      from plain(2) obtain acc0 where
        w: "walkMerge sameOp buildOp None coreOperations (length coreOperations)
              (initialState h existingOperations, []) (Suc i) (state, acc0)"
        and b: "buildOp (coreOperations ! i) = Some newOp"
        by cases simp_all
      from walkMerge_inv [OF w] walkInv_initialState have f: "\<not> finished ?s"
        by (fastforce simp: fs walkInv_def)
      from runMerge_plain_after_clearing [OF w b c f] show ?thesis
        by (simp add: plain e)
    next
      case release
      note w = release(2)
      from walkMerge_inv [OF w] walkInv_initialState have f: "\<not> finished ?s"
        by (fastforce simp: fs walkInv_def)
      from c f have "elems (existingOps (stepBuilder sameOp state (merger pending) i)) = []"
        and "\<not> finished (stepBuilder sameOp state (merger pending) i)"
        by (simp_all add: release(5))
      from runMerge_release_after_clearing [OF w release(3,4) this] e show ?thesis
        by (simp add: release(1,5,6))
    next
      case flush
      note w = flush(2)
      from walkMerge_inv [OF w] walkInv_initialState have f: "\<not> finished ?s"
        by (fastforce simp: fs walkInv_def)
      from f have "\<not> finished (stepBuilder sameOp state (merger pending) 0)"
        by (simp add: flush(4,5))
      from runMerge_flush [OF w flush(3) this] e show ?thesis
        by (simp add: flush(1,4,5,6))
    qed
  qed
  show ?thesis
    using c' calls run by (simp add: s stepBuilder_cleared)
qed


theorem C2_stale_cache_recovery_witness:
  "elems (existingOps (stepBuilder sameFields
      (initialState 20 \<lparr>arr_ref = 5, elems = [o2stale, o1]\<rparr>) o2' 1)) = []
   \<and> elems (operations (stepBuilder sameFields
      (initialState 20 \<lparr>arr_ref = 5, elems = [o2stale, o1]\<rparr>) o2' 1)) = [o2']
   \<and> warnings (stepBuilder sameFields
      (initialState 20 \<lparr>arr_ref = 5, elems = [o2stale, o1]\<rparr>) o2' 1) = [(o2', o2stale)]
   \<and> elems (operations (stepBuilder sameFields (stepBuilder sameFields
      (initialState 20 \<lparr>arr_ref = 5, elems = [o2stale, o1]\<rparr>) o2' 1) o1' 0)) = [o2', o1']
   \<and> sameOpCalls (runSync sameFields 20 \<lparr>arr_ref = 5, elems = [o2stale, o1]\<rparr>
        [''o1'', ''o2''] sampleBuild) \<le> 1
   \<and> elems (minimalOperationsBuilderSync sameFields 20 \<lparr>arr_ref = 5, elems = [o2stale, o1]\<rparr>
        [''o1'', ''o2''] sampleBuild) = [o2', o1']
   \<and> arr_ref (minimalOperationsBuilderSync sameFields 20 \<lparr>arr_ref = 5, elems = [o2stale, o1]\<rparr>
        [''o1'', ''o2''] sampleBuild) = 20
   \<and> elems (minimalOperationsBuilder sameFields 20
        \<lparr>arr_ref = 5, elems = [mergedA\<lparr>op_ref := 3, op_amount := 99\<rparr>]\<rparr>
        [''b'', ''a3'', ''a2'', ''a1''] mergeBuild (Some sumAmounts)) = [mergedA, mergedB]
   \<and> arr_ref (minimalOperationsBuilder sameFields 20
        \<lparr>arr_ref = 5, elems = [mergedA\<lparr>op_ref := 3, op_amount := 99\<rparr>]\<rparr>
        [''b'', ''a3'', ''a2'', ''a1''] mergeBuild (Some sumAmounts)) = 20"
proof -
  let ?ex = "\<lparr>arr_ref = 5, elems = [o2stale, o1]\<rparr>"
  let ?s0 = "initialState 20 ?ex"
  let ?s1 = "stepBuilder sameFields ?s0 o2' 1"
  let ?core = "[''o1'', ''o2'']"
  have found: "findExistingOp (elems (existingOps ?s0)) o2' = Some o2stale"
    by (simp add: findExistingOp_def sample_defs)
  have first: "\<not> immutableOpCmpDoneOnce ?s0"
    by simp
  have height: "op_blockHeight o2stale = op_blockHeight o2'"
    by (simp add: sample_defs)
  have stale: "\<not> sameFields o2stale o2'"
    by (simp add: sample_defs)
  have "walkSync sameFields sampleBuild ?core 1 ?s1 1 ?s1"
    by (rule walkSync_start)
  then have later: "walkSync sameFields sampleBuild ?core 1 ?s1 1 ?s1
                \<or> walkMerge sameFields sampleBuild None ?core 1 (?s1, []) 1 (?s1, [])"
    by simp
  have "walkSync sameFields sampleBuild ?core (length ?core) ?s0 (length ?core) ?s0"
    by (rule walkSync_start)
  then have "callsSync sameFields 20 ?ex ?core sampleBuild ?s0 o2' 1"
    by (rule callsSyncI) (simp_all add: sampleBuild_def)
  moreover have "[o1'] = map fst (indexedOps sampleBuild ?core 1)"
    by (simp add: sampleBuild_def)
  ultimately have call:
    "minimalOperationsBuilderSync sameFields 20 ?ex ?core sampleBuild
       = minimalOperationsBuilderSync sameFields 20 ?ex ?core sampleBuild
     \<and> callsSync sameFields 20 ?ex ?core sampleBuild ?s0 o2' 1
     \<and> [o1'] = map fst (indexedOps sampleBuild ?core 1)
     \<or> minimalOperationsBuilderSync sameFields 20 ?ex ?core sampleBuild
       = minimalOperationsBuilder sameFields 20 ?ex ?core sampleBuild None
     \<and> callsMerge sameFields 20 ?ex ?core sampleBuild None ?s0 o2' 1
     \<and> [o1'] = map fst (indexedOps sampleBuild ?core 1)
     \<or> minimalOperationsBuilderSync sameFields 20 ?ex ?core sampleBuild
       = minimalOperationsBuilder sameFields 20 ?ex ?core sampleBuild (Some sumAmounts)
     \<and> walkMerge sameFields sampleBuild (Some sumAmounts) ?core (length ?core)
         (initialState 20 ?ex, []) (Suc 1) (?s0, [])
     \<and> sampleBuild (?core ! 1) = Some o1'
     \<and> \<not> (length ([]::Operation list) = 0 \<or> op_hash ([] ! 0) = op_hash o1')
     \<and> o2' = sumAmounts []
     \<and> [o1'] = map (\<lambda>g. sumAmounts (map fst g))
                (runsBy (\<lambda>x. op_hash (fst x)) (indexedOps sampleBuild ?core (Suc 1)))
     \<or> minimalOperationsBuilderSync sameFields 20 ?ex ?core sampleBuild
       = minimalOperationsBuilder sameFields 20 ?ex ?core sampleBuild (Some sumAmounts)
     \<and> walkMerge sameFields sampleBuild (Some sumAmounts) ?core (length ?core)
         (initialState 20 ?ex, []) 0 (?s0, [])
     \<and> length ([]::Operation list) \<noteq> 0
     \<and> o2' = sumAmounts []
     \<and> (1::nat) = 0
     \<and> [o1'] = []"
    by simp
  note sync = C2_stale_cache_recovery [OF found first height stale later call,
                where op = o1' and k' = 0]
  let ?staleA = "mergedA\<lparr>op_ref := 3, op_amount := 99\<rparr>"
  let ?exA = "\<lparr>arr_ref = 5, elems = [?staleA]\<rparr>"
  let ?a0 = "initialState 20 ?exA"
  let ?a1 = "stepBuilder sameFields ?a0 (sumAmounts [opA1, opA2, opA3]) 0"
  let ?coreA = "[''b'', ''a3'', ''a2'', ''a1'']"
  have foundA: "findExistingOp (elems (existingOps ?a0)) (sumAmounts [opA1, opA2, opA3])
                  = Some ?staleA"
    by (simp add: findExistingOp_def sample_defs)
  have firstA: "\<not> immutableOpCmpDoneOnce ?a0"
    by simp
  have heightA: "op_blockHeight ?staleA = op_blockHeight (sumAmounts [opA1, opA2, opA3])"
    by (simp add: sample_defs)
  have staleA: "\<not> sameFields ?staleA (sumAmounts [opA1, opA2, opA3])"
    by (simp add: sample_defs)
  have "walkSync sameFields mergeBuild ?coreA 0 ?a1 0 ?a1"
    by (rule walkSync_start)
  then have laterA: "walkSync sameFields mergeBuild ?coreA 0 ?a1 0 ?a1
                \<or> walkMerge sameFields mergeBuild None ?coreA 0 (?a1, []) 0 (?a1, [])"
    by simp
  have w4: "walkMerge sameFields mergeBuild (Some sumAmounts) ?coreA (length ?coreA) (?a0, [])
              (length ?coreA) (?a0, [])"
    by (rule walkMerge_start)
  have w3: "walkMerge sameFields mergeBuild (Some sumAmounts) ?coreA (length ?coreA) (?a0, [])
              3 (?a0, [opA1])"
    by (rule walkMerge_accumulateI [OF w4, where merger = sumAmounts and op = opA1])
       (simp_all add: mergeBuild_def)
  have w2: "walkMerge sameFields mergeBuild (Some sumAmounts) ?coreA (length ?coreA) (?a0, [])
              2 (?a0, [opA1, opA2])"
    by (rule walkMerge_accumulateI [OF w3, where merger = sumAmounts and op = opA2])
       (simp_all add: mergeBuild_def opA1_def opA2_def mkOp_def)
  have w1: "walkMerge sameFields mergeBuild (Some sumAmounts) ?coreA (length ?coreA) (?a0, [])
              (Suc 0) (?a0, [opA1, opA2, opA3])"
    by (rule walkMerge_accumulateI [OF w2, where merger = sumAmounts and op = opA3])
       (simp_all add: mergeBuild_def opA1_def opA3_def mkOp_def)
  have b0: "mergeBuild (?coreA ! 0) = Some opB"
    by (simp add: mergeBuild_def)
  have d0: "\<not> (length [opA1, opA2, opA3] = 0 \<or> op_hash ([opA1, opA2, opA3] ! 0) = op_hash opB)"
    by (simp add: opA1_def opB_def mkOp_def)
  have restA: "[mergedB] = map (\<lambda>g. sumAmounts (map fst g))
                 (runsBy (\<lambda>x. op_hash (fst x)) (indexedOps mergeBuild ?coreA (Suc 0)))"
    by (simp add: sample_defs)
  from w1 b0 d0 restA have callA:
    "minimalOperationsBuilder sameFields 20 ?exA ?coreA mergeBuild (Some sumAmounts)
       = minimalOperationsBuilderSync sameFields 20 ?exA ?coreA mergeBuild
     \<and> callsSync sameFields 20 ?exA ?coreA mergeBuild ?a0 (sumAmounts [opA1, opA2, opA3]) 0
     \<and> [mergedB] = map fst (indexedOps mergeBuild ?coreA 0)
     \<or> minimalOperationsBuilder sameFields 20 ?exA ?coreA mergeBuild (Some sumAmounts)
       = minimalOperationsBuilder sameFields 20 ?exA ?coreA mergeBuild None
     \<and> callsMerge sameFields 20 ?exA ?coreA mergeBuild None ?a0 (sumAmounts [opA1, opA2, opA3]) 0
     \<and> [mergedB] = map fst (indexedOps mergeBuild ?coreA 0)
     \<or> minimalOperationsBuilder sameFields 20 ?exA ?coreA mergeBuild (Some sumAmounts)
       = minimalOperationsBuilder sameFields 20 ?exA ?coreA mergeBuild (Some sumAmounts)
     \<and> walkMerge sameFields mergeBuild (Some sumAmounts) ?coreA (length ?coreA)
         (initialState 20 ?exA, []) (Suc 0) (?a0, [opA1, opA2, opA3])
     \<and> mergeBuild (?coreA ! 0) = Some opB
     \<and> \<not> (length [opA1, opA2, opA3] = 0 \<or> op_hash ([opA1, opA2, opA3] ! 0) = op_hash opB)
     \<and> sumAmounts [opA1, opA2, opA3] = sumAmounts [opA1, opA2, opA3]
     \<and> [mergedB] = map (\<lambda>g. sumAmounts (map fst g))
                (runsBy (\<lambda>x. op_hash (fst x)) (indexedOps mergeBuild ?coreA (Suc 0)))
     \<or> minimalOperationsBuilder sameFields 20 ?exA ?coreA mergeBuild (Some sumAmounts)
       = minimalOperationsBuilder sameFields 20 ?exA ?coreA mergeBuild (Some sumAmounts)
     \<and> walkMerge sameFields mergeBuild (Some sumAmounts) ?coreA (length ?coreA)
         (initialState 20 ?exA, []) 0 (?a0, [opA1, opA2, opA3])
     \<and> length [opA1, opA2, opA3] \<noteq> 0
     \<and> sumAmounts [opA1, opA2, opA3] = sumAmounts [opA1, opA2, opA3]
     \<and> (0::nat) = 0
     \<and> [mergedB] = []"
    by blast
  note merge = C2_stale_cache_recovery [OF foundA firstA heightA staleA laterA callA,
                 where op = opB and k' = 0]
  have m: "sumAmounts [opA1, opA2, opA3] = mergedA"
    by (simp add: sample_defs)
  from sync have "elems (existingOps ?s1) = [] \<and> elems (operations ?s1) = [o2']
      \<and> warnings ?s1 = [(o2', o2stale)]
      \<and> elems (operations (stepBuilder sameFields ?s1 o1' 0)) = [o2', o1']
      \<and> sameOpCalls (runSync sameFields 20 ?ex ?core sampleBuild) \<le> 1
      \<and> elems (minimalOperationsBuilderSync sameFields 20 ?ex ?core sampleBuild) = [o2', o1']
      \<and> arr_ref (minimalOperationsBuilderSync sameFields 20 ?ex ?core sampleBuild) = 20"
    by simp
  moreover from merge have
    "elems (minimalOperationsBuilder sameFields 20 ?exA ?coreA mergeBuild (Some sumAmounts))
       = [mergedA, mergedB]
     \<and> arr_ref (minimalOperationsBuilder sameFields 20 ?exA ?coreA mergeBuild (Some sumAmounts))
       = 20"
    by (simp add: m)
  ultimately show ?thesis
    by simp
qed

section \<open>Properties of the balance history check\<close>

lemma shouldRefreshBalanceHistoryCache_iff:
  "shouldRefreshBalanceHistoryCache candidate cached \<longleftrightarrow>
     strictNe (latestDate (HOUR cached)) (latestDate (HOUR candidate))
     \<or> length (balances (HOUR cached)) \<noteq> length (balances (HOUR candidate))
     \<or> (balances (HOUR cached) \<noteq> [] \<and> balances (HOUR candidate) \<noteq> []
        \<and> strictNeNumber (last (balances (HOUR cached))) (last (balances (HOUR candidate))))"
proof (cases "length (balances (HOUR cached)) = length (balances (HOUR candidate))")
  case True
  then have "balances (HOUR cached) = [] \<longleftrightarrow> balances (HOUR candidate) = []"
    by (metis length_0_conv)
  with True show ?thesis
    by (auto simp: shouldRefreshBalanceHistoryCache_def Let_def last_conv_nth)
next
  case False
  then show ?thesis
    by (simp add: shouldRefreshBalanceHistoryCache_def Let_def)
qed

lemma patchTokenFields_cache:
  "patchTokenFields env account updatedRaw (next, changed) = Inr (next', changed') \<Longrightarrow>
   sa_balanceHistoryCache next' = sa_balanceHistoryCache next \<and> sa_ref next' = sa_ref next"
  by (auto simp: patchTokenFields_def Let_def split: if_splits option.splits)

lemma patchSubAccount_cache:
  assumes "patchSubAccount env h (Some account) updatedRaw = Inr (r, h')"
    and "sa_id account = sar_id updatedRaw" and "sa_parentId account = sar_parentId updatedRaw"
  shows "sa_balanceHistoryCache r =
           (case sar_balanceHistoryCache updatedRaw of
              None \<Rightarrow> sa_balanceHistoryCache account
            | Some c \<Rightarrow> if shouldRefreshBalanceHistoryCache c (sa_balanceHistoryCache account)
                        then c else sa_balanceHistoryCache account)"
  using assms
  by (auto simp: patchSubAccount_def Let_def split: if_splits option.splits prod.splits sum.splits
           dest!: patchTokenFields_cache)

text \<open>
  C6. \<open>shouldRefreshBalanceHistoryCache\<close> reads the hourly buckets only. It answers true
  exactly when their \<open>latestDate\<close> differ, or their \<open>balances\<close> differ in length, or both
  are non-empty and their last values differ, where "differ" is \<open>!==\<close>; otherwise, and so
  when both buckets are empty with one \<open>latestDate\<close>, it answers false. A sub-account
  patched from a raw record that carries a history keeps its cached history when the answer
  is false and takes the record's when it is true.
\<close>

theorem C6_refresh_decision:
  assumes "patchSubAccount env h (Some account) updatedRaw = Inr (r, h')"
    and "sa_id account = sar_id updatedRaw" and "sa_parentId account = sar_parentId updatedRaw"
    and "sar_balanceHistoryCache updatedRaw = Some c"
  shows "(shouldRefreshBalanceHistoryCache candidate cached \<longleftrightarrow>
           strictNe (latestDate (HOUR cached)) (latestDate (HOUR candidate))
           \<or> length (balances (HOUR cached)) \<noteq> length (balances (HOUR candidate))
           \<or> (balances (HOUR cached) \<noteq> [] \<and> balances (HOUR candidate) \<noteq> []
              \<and> strictNeNumber (last (balances (HOUR cached)))
                    (last (balances (HOUR candidate)))))
       \<and> sa_balanceHistoryCache r =
           (if shouldRefreshBalanceHistoryCache c (sa_balanceHistoryCache account)
            then c else sa_balanceHistoryCache account)"
  using patchSubAccount_cache [OF assms(1-3)] assms(4)
  by (simp add: shouldRefreshBalanceHistoryCache_iff)

lemmas convert_defs = fromSubAccountRaw_def fromTokenAccountRaw_def fromChildAccountRaw_def
  convertOperations_def fromOperationRaw_def dateOrNow_def countOrLength_def truthy_def orElse_def
  enumerate_eq_zip Let_def

lemmas patch_defs = patchAccount_def patchedSubAccounts_def patchOperations_def
  patchFamilyResources_def shouldRefreshBitcoinResources_def patchSubAccount_def patchTokenFields_def
  shouldRefreshBalanceHistoryCache_def minimalOperationsBuilderSync_def orElse_def truthy_def
  differsFromDate_def strictNeNumber_def Let_def

lemma sample_patch_usdt_changed:
  "patchSubAccount sampleEnv 50 (Some usdtAccount)
     (usdtRaw\<lparr>sar_balanceHistoryCache := Some (bucket (Val (Num 7200)) [Num 10, Num 25])\<rparr>)
   = Inr (usdtAccount\<lparr>sa_ref := 50,
            sa_balanceHistoryCache := bucket (Val (Num 7200)) [Num 10, Num 25]\<rparr>, 51)"
  by (simp add: patch_defs sample_account_defs sample_sub_defs)

theorem C6_refresh_decision_witness:
  "shouldRefreshBalanceHistoryCache (bucket (Val (Num 7200)) [Num 10, Num 25])
       (bucket (Val (Num 7200)) [Num 10, Num 20])
   \<and> \<not> shouldRefreshBalanceHistoryCache (bucket (Val (Num 7200)) [Num 10, Num 20])
       (bucket (Val (Num 7200)) [Num 10, Num 20])
   \<and> \<not> shouldRefreshBalanceHistoryCache (bucket Null []) (bucket Null [])
   \<and> sa_balanceHistoryCache
        (usdtAccount\<lparr>sa_ref := 50,
            sa_balanceHistoryCache := bucket (Val (Num 7200)) [Num 10, Num 25]\<rparr>)
       = bucket (Val (Num 7200)) [Num 10, Num 25]"
proof -
  let ?raw = "usdtRaw\<lparr>sar_balanceHistoryCache := Some (bucket (Val (Num 7200)) [Num 10, Num 25])\<rparr>"
  have ids: "sa_id usdtAccount = sar_id ?raw" "sa_parentId usdtAccount = sar_parentId ?raw"
    by (simp_all add: sample_sub_defs)
  have c: "sar_balanceHistoryCache ?raw = Some (bucket (Val (Num 7200)) [Num 10, Num 25])"
    by simp
  note t = C6_refresh_decision [OF sample_patch_usdt_changed ids c]
  show ?thesis
    using t [of "bucket (Val (Num 7200)) [Num 10, Num 25]" "bucket (Val (Num 7200)) [Num 10, Num 20]"]
      t [of "bucket (Val (Num 7200)) [Num 10, Num 20]" "bucket (Val (Num 7200)) [Num 10, Num 20]"]
      t [of "bucket Null []" "bucket Null []"]
    by (simp add: bucket_def strictNeNumber_def)
qed

section \<open>Properties of the conversion and of the patchers\<close>

subsection \<open>What the conversion of an operation throws\<close>

lemma fromOperationRaw_throws:
  "fromOperationRaw env operation accountId subAccounts
     = Inl (ReferenceError ''contract is not defined'')"
  by (simp add: fromOperationRaw_def Let_def)

lemma convertOperations_Nil:
  "convertOperations env h [] accountId subAccounts = Inr (\<lparr>arr_ref = h, elems = []\<rparr>, Suc h)"
  by (simp add: convertOperations_def)

lemma convertOperations_throws:
  "raws \<noteq> [] \<Longrightarrow>
   convertOperations env h raws accountId subAccounts
     = Inl (ReferenceError ''contract is not defined'')"
  by (cases raws) (simp_all add: convertOperations_def fromOperationRaw_throws)

text \<open>
  With an adapter that does not throw, the loop of \<open>patchOperations\<close> is the loop of
  \<open>minimalOperationsBuilderSync\<close>; with \<open>fromOperationRaw\<close> it throws at the first record.
\<close>

lemma loopSyncThrowing_total:
  "\<forall>i<k. buildOp (coreOperations ! i) = Inr (g (coreOperations ! i)) \<Longrightarrow>
   loopSyncThrowing sameOp buildOp coreOperations state k
     = Inr (loopSync sameOp g coreOperations state k)"
  by (induction k arbitrary: state) (simp_all add: Let_def split: option.splits)

lemma patchOperations_Nil:
  "patchOperations env h ops [] accountId subAccounts
     = Inr (if elems ops = [] then ops else \<lparr>arr_ref = h, elems = []\<rparr>,
            if elems ops = [] then h else Suc h)"
  by (simp add: patchOperations_def initialState_def)

lemma patchOperations_throws:
  "updated \<noteq> [] \<Longrightarrow>
   patchOperations env h ops updated accountId subAccounts
     = Inl (ReferenceError ''contract is not defined'')"
proof -
  assume "updated \<noteq> []"
  then obtain n where n: "length updated = Suc n"
    by (cases updated) simp_all
  then have "n < length (rev updated)"
    by simp
  then have "enumerate 0 (rev updated) ! n = (n, rev updated ! n)"
    by (simp add: nth_enumerate_eq)
  moreover have "enumerate 0 (rev updated) \<noteq> []"
    using n by (metis length_enumerate length_rev list.size(3) nat.distinct(1))
  ultimately show ?thesis
    by (simp add: patchOperations_def Let_def n fromOperationRaw_throws)
qed

subsection \<open>Sub-accounts by their discriminant\<close>

lemma fromSubAccountRaw_unknown_type:
  "sar_type raw \<noteq> ''ChildAccountRaw'' \<Longrightarrow> sar_type raw \<noteq> ''TokenAccountRaw'' \<Longrightarrow>
   fromSubAccountRaw env h raw = Inl (Error (''invalid raw.type='' @ sar_type raw))"
  by (simp add: fromSubAccountRaw_def)

lemma fromSubAccountRaw_known_type:
  "sar_type raw = ''ChildAccountRaw'' \<Longrightarrow>
   fromSubAccountRaw env h raw = fromChildAccountRaw env h raw"
  "sar_type raw = ''TokenAccountRaw'' \<Longrightarrow>
   fromSubAccountRaw env h raw = fromTokenAccountRaw env h raw"
  by (simp_all add: fromSubAccountRaw_def)

text \<open>
  A record of a known type that carries an operation is never converted: when the lookup
  of its currency or token succeeds, the conversion of the first operation throws.
\<close>

lemma fromChildAccountRaw_with_operation:
  "sar_operations raw \<noteq> [] \<or> sar_pendingOperations raw \<noteq> [] \<Longrightarrow>
   fromChildAccountRaw env h raw
     = (case x_getCryptoCurrencyById env (sar_currencyId raw) of
          Inl e \<Rightarrow> Inl e
        | Inr currency \<Rightarrow> Inl (ReferenceError ''contract is not defined''))"
  by (cases "sar_operations raw = []")
     (simp_all add: fromChildAccountRaw_def convertOperations_Nil convertOperations_throws
        split: sum.splits)

lemma fromTokenAccountRaw_with_operation:
  "sar_operations raw \<noteq> [] \<or> sar_pendingOperations raw \<noteq> [] \<Longrightarrow>
   fromTokenAccountRaw env h raw
     = (case x_getTokenById env (sar_tokenId raw) of
          Inl e \<Rightarrow> Inl e
        | Inr token \<Rightarrow> Inl (ReferenceError ''contract is not defined''))"
  by (cases "sar_operations raw = []")
     (simp_all add: fromTokenAccountRaw_def convertOperations_Nil convertOperations_throws
        split: sum.splits)

text \<open>
  C9 at a raw token account that carries one operation. Its type is known and its token is
  found, and \<open>fromSubAccountRaw\<close> throws the \<open>ReferenceError\<close> of \<open>fromOperationRaw\<close>
  where a \<open>TokenAccount\<close> was to be returned; with the same record converted as a child
  account of a known currency it throws the same. The same record without the operation
  is converted to the \<open>TokenAccount\<close> holding its fields, and with a type that is not
  known the error names the type.
\<close>

theorem C9_known_type_with_operation_throws:
  "fromSubAccountRaw sampleEnv 30 usdtRawWithTransfer
     = Inl (ReferenceError ''contract is not defined'')
   \<and> x_getTokenById sampleEnv (sar_tokenId usdtRawWithTransfer) = Inr usdt
   \<and> fromSubAccountRaw sampleEnv 30
        (usdtRawWithTransfer\<lparr>sar_type := ''ChildAccountRaw'', sar_currencyId := ''bitcoin''\<rparr>)
       = Inl (ReferenceError ''contract is not defined'')
   \<and> fromSubAccountRaw sampleEnv 30 usdtRaw = Inr (usdtAccount, 33)
   \<and> fromSubAccountRaw sampleEnv 30 unknownRaw = Inl (Error ''invalid raw.type=NftAccountRaw'')"
  by (simp add: convert_defs sample_account_defs sample_sub_defs)





subsection \<open>The verdict on family resources\<close>

text \<open>
  The bitcoin branch leaves \<open>changed\<close> as it finds it, whatever
  \<open>shouldRefreshBitcoinResources\<close> answers; the polkadot branch raises it when it installs
  resources.
\<close>

lemma patchFamilyResources_bitcoin:
  "cur_family (acc_currency account) = ''bitcoin'' \<Longrightarrow>
   snd (patchFamilyResources env account updatedRaw (next, changed)) = changed"
  by (simp add: patchFamilyResources_def)

lemma patchFamilyResources_polkadot:
  "cur_family (acc_currency account) = ''polkadot'' \<Longrightarrow>
   accr_polkadotResources updatedRaw = Some raw \<Longrightarrow>
   acc_polkadotResources account = None
   \<or> x_toPolkadotResourcesRaw env (the (acc_polkadotResources account)) \<noteq> raw \<Longrightarrow>
   patchFamilyResources env account updatedRaw (next, changed)
     = (next\<lparr>acc_polkadotResources := Some (x_fromPolkadotResourcesRaw env raw)\<rparr>, True)"
  by (auto simp: patchFamilyResources_def split: option.splits)

text \<open>
  In the branch of the other families, \<open>changed || applyReconciliation(...)\<close> does not call
  the bridge once \<open>changed\<close> is set.
\<close>

lemma patchFamilyResources_default_changed:
  "cur_family (acc_currency account) \<notin> {''bitcoin'', ''polkadot'', ''zilliqa'', ''crypto_org''} \<Longrightarrow>
   patchFamilyResources env account updatedRaw (next, True) = (next, True)"
  by (simp add: patchFamilyResources_def split: option.splits)

text \<open>
  C8 at a bitcoin account. The cached account and the snapshot differ in the unspent
  outputs only; \<open>shouldRefreshBitcoinResources\<close> answers true, and \<open>patchAccount\<close> returns the
  cached object with its old outputs. The same difference on a polkadot account gives a new
  object holding the rebuilt resources.
\<close>

theorem C8_bitcoin_resources_dropped:
  "shouldRefreshBitcoinResources sampleEnv btcRaw btcAccount
   \<and> patchAccount sampleEnv 50 btcAccount btcRaw = Inr (btcAccount, 51)
   \<and> acc_bitcoinResources btcAccount
       = Some \<lparr>btc_utxos = [BitcoinOutput ''utxo-1''], btc_walletAccount = None\<rparr>
   \<and> x_fromBitcoinResourcesRaw sampleEnv (the (accr_bitcoinResources btcRaw))
       = \<lparr>btc_utxos = [BitcoinOutput ''utxo-2''], btc_walletAccount = None\<rparr>
   \<and> patchAccount sampleEnv 50 dotAccount dotRaw
       = Inr (dotAccount\<lparr>acc_ref := 50,
                acc_polkadotResources := Some (FamilyResources ''nonce-2'')\<rparr>, 51)"
  by (simp add: patch_defs sample_account_defs)

text \<open>
  C4 at a snapshot without \<open>spendableBalance\<close>. Patching the cached account gives a new
  object; patching that object with the same snapshot gives yet another object with the
  same fields, not the first result. With the \<open>spendableBalance\<close> present the cached object
  comes back.
\<close>

theorem C4_absent_spendableBalance_not_idempotent:
  "patchAccount sampleEnv 50 btcAccount oldRaw = Inr (btcAccount\<lparr>acc_ref := 50\<rparr>, 51)
   \<and> patchAccount sampleEnv 51 (btcAccount\<lparr>acc_ref := 50\<rparr>) oldRaw
       = Inr (btcAccount\<lparr>acc_ref := 51\<rparr>, 52)
   \<and> acc_ref (btcAccount\<lparr>acc_ref := 51\<rparr>) \<noteq> acc_ref (btcAccount\<lparr>acc_ref := 50\<rparr>)
   \<and> patchAccount sampleEnv 50 btcAccount (oldRaw\<lparr>accr_spendableBalance := Some ''100''\<rparr>)
       = Inr (btcAccount, 51)"
  by (simp add: patch_defs sample_account_defs)

end
